theory Spec2Isabelle
  imports Complex_Main
begin

section \<open>Differentiation utilities of \<open>tensorcircuit/experimental.py\<close>\<close>

text \<open>
  The module is a collection of higher-order functions over the numerical backend of
  the package (\<open>tensorcircuit.cons.backend\<close>). Numbers are modelled as exact real and
  complex numbers, so a statement here is about the algebra the code performs (which
  index is paired with which, where the conjugate sits, which path raises), not about
  rounding. A dtype is not part of a value: \<open>backend.cast\<close> to the complex dtype keeps
  the value, and a real tensor is a complex tensor whose entries have imaginary part 0.

  Where the code does linear algebra (\<open>qng\<close>, \<open>qng2\<close>, \<open>dynamics_rhs\<close>, \<open>hamiltonian_evol\<close>)
  a vector is the list of its entries and a matrix the list of its rows; where it
  reshapes, slices and stacks (\<open>adaptive_vmap\<close>, \<open>parameter_shift_grad\<close>,
  \<open>parameter_shift_grad_v2\<close>) a tensor is its shape with its entries in row-major order.
  A function passed to the module (\<open>f\<close>, a callable postprocess, a callback) is a total
  function.
\<close>

subsection \<open>Errors\<close>

text \<open>
  Every way a call can raise is a constructor. \<open>NameError\<close> carries the name of the local
  variable read before assignment (Python raises \<open>UnboundLocalError\<close>, a subclass of
  \<open>NameError\<close>); \<open>ValueError\<close> carries its message.
\<close>

datatype error =
    ValueError string
  | NameError string
  | IndexError string
  | ZeroDivisionError

subsection \<open>Vectors and matrices\<close>

type_synonym vec = "complex list"
type_synonym mat = "complex list list"

text \<open>
  Modelled from the spec: \<open>backend.cast\<close> (tensorcircuit.cons, not under src/) changes
  the dtype of a tensor and keeps its values.
\<close>

definition cast :: "'a \<Rightarrow> 'a" where
  "cast t = t"

text \<open>
  Modelled from the spec: \<open>backend.conj\<close> (tensorcircuit.cons, not under src/), the
  elementwise complex conjugate.
\<close>

definition conj :: "vec \<Rightarrow> vec" where
  "conj v = map cnj v"

text \<open>
  Modelled from the spec: \<open>backend.tensordot(a, b, 1)\<close> (tensorcircuit.cons, not under
  src/) on two vectors of equal length contracts their only axis.
\<close>

definition tensordot1 :: "vec \<Rightarrow> vec \<Rightarrow> complex" where
  "tensordot1 a b = sum_list (map2 (*) a b)"

text \<open>
  Modelled from the spec: \<open>backend.transpose\<close> (tensorcircuit.cons, not under src/) of
  a matrix with \<open>n\<close> columns: row \<open>c\<close> of the result is column \<open>c\<close> of the argument. The
  number of columns is passed, as a tensor knows its shape also when it has no row.
\<close>

definition transpose_t :: "nat \<Rightarrow> 'a list list \<Rightarrow> 'a list list" where
  "transpose_t n a = map (\<lambda>c. map (\<lambda>r. r ! c) a) [0..<n]"

text \<open>
  Modelled from the spec: \<open>backend.vmap(g, vectorized_argnums=0)\<close> and
  \<open>backend.vmap(g, vectorized_argnums=1)\<close> (tensorcircuit.cons, not under src/) of a
  function of two arguments: the vectorized map runs \<open>g\<close> over the rows of the named
  argument, holds the other one fixed and stacks the results along a new first axis.
\<close>

definition vmap_argnum0 :: "('a \<Rightarrow> 'b \<Rightarrow> 'c) \<Rightarrow> 'a list \<Rightarrow> 'b \<Rightarrow> 'c list" where
  "vmap_argnum0 g xs y = map (\<lambda>x. g x y) xs"

definition vmap_argnum1 :: "('a \<Rightarrow> 'b \<Rightarrow> 'c) \<Rightarrow> 'a \<Rightarrow> 'b list \<Rightarrow> 'c list" where
  "vmap_argnum1 g x ys = map (\<lambda>y. g x y) ys"

text \<open>
  Modelled from the spec: \<open>backend.eye(n)\<close> (tensorcircuit.cons, not under src/), the
  \<open>n\<close> by \<open>n\<close> identity matrix.
\<close>

definition eye :: "nat \<Rightarrow> mat" where
  "eye n = map (\<lambda>i. map (\<lambda>j. if i = j then 1 else 0) [0..<n]) [0..<n]"

text \<open>
  Modelled from the spec: \<open>backend.real\<close> (tensorcircuit.cons, not under src/), the
  elementwise real part; the real result is kept among the complex numbers.
\<close>

definition real_t :: "mat \<Rightarrow> mat" where
  "real_t t = map (map (\<lambda>z. complex_of_real (Re z))) t"

text \<open>Elementwise sum of two matrices of the same shape, and a scalar times a matrix.\<close>

definition add_m :: "mat \<Rightarrow> mat \<Rightarrow> mat" where
  "add_m a b = map2 (map2 (+)) a b"

definition scale_m :: "complex \<Rightarrow> mat \<Rightarrow> mat" where
  "scale_m c a = map (map ((*) c)) a"

text \<open>
  The automatic differentiation of the backend is not part of the module: its
  primitives are parameters of the model. \<open>jacfwd B f p\<close> and \<open>jacrev B f p\<close> are the
  Jacobian of \<open>f\<close> at \<open>p\<close> (one row for each component of the result, one column for each
  parameter), \<open>vjp B g p v\<close> is the pair of \<open>g p\<close> and the vector-Jacobian product,
  \<open>stop_gradient B\<close> is the marker that cuts the derivative.
\<close>

record backend =
  jacfwd :: "(vec \<Rightarrow> vec) \<Rightarrow> vec \<Rightarrow> mat"
  jacrev :: "(vec \<Rightarrow> vec) \<Rightarrow> vec \<Rightarrow> mat"
  vjp :: "(vec \<Rightarrow> complex) \<Rightarrow> vec \<Rightarrow> complex \<Rightarrow> complex \<times> vec"
  stop_gradient :: "vec \<Rightarrow> vec"
  copy :: "vec \<Rightarrow> vec"

subsection \<open>Quantum natural gradient: \<open>qng\<close>\<close>

text \<open>\<open>_qng_post_process\<close>: add \<open>eps\<close> times the identity, then take the real part.\<close>

definition qng_post_process :: "mat \<Rightarrow> real \<Rightarrow> mat" where
  "qng_post_process t eps = real_t (add_m t (scale_m (complex_of_real eps) (eye (length t))))"

definition default_eps :: real where
  "default_eps = 1 / 10000"

text \<open>\<open>_id\<close> and \<open>_vdot\<close>.\<close>

definition id_post :: "mat \<Rightarrow> mat" where
  "id_post a = a"

definition vdot :: "vec \<Rightarrow> vec \<Rightarrow> complex" where
  "vdot i j = tensordot1 (conj i) j"

text \<open>
  The \<open>postprocess\<close> argument is a string, \<open>None\<close> or a callable. A callable is a total
  function on matrices.
\<close>

datatype postprocess = PStr string | PNone | PCallable "mat \<Rightarrow> mat"

text \<open>
  The choice of the postprocessing function, lines 118 to 127 of the source (the same
  lines are in \<open>qng\<close> and in \<open>qng2\<close>).
\<close>

definition select_post_process :: "postprocess \<Rightarrow> error + (mat \<Rightarrow> mat)" where
  "select_post_process postprocess =
     (case postprocess of
        PStr s \<Rightarrow>
          if s = ''qng'' then Inr (\<lambda>t. qng_post_process t default_eps)
          else Inl (ValueError ''Unsupported postprocess option'')
      | PNone \<Rightarrow> Inr id_post
      | PCallable p \<Rightarrow> Inr p)"

text \<open>
  The local function \<open>ij\<close> of \<open>qng\<close>: it is bound only when the kernel is \<open>"qng"\<close> or
  \<open>"dynamics"\<close>.
\<close>

definition qng_ij :: "string \<Rightarrow> vec \<Rightarrow> (vec \<Rightarrow> vec \<Rightarrow> complex) option" where
  "qng_ij knl psi =
     (if knl = ''qng'' then Some (\<lambda>i j. vdot i j - vdot i psi * vdot psi j)
      else if knl = ''dynamics'' then Some (\<lambda>i j. vdot i j)
      else None)"

text \<open>
  The matrix \<open>fim\<close> of the wrapper of \<open>qng\<close> before postprocessing (lines 93 to 115).
  Reading the unbound \<open>ij\<close> at line 112 raises.
\<close>

definition qng_fim :: "backend \<Rightarrow> (vec \<Rightarrow> vec) \<Rightarrow> string \<Rightarrow> string \<Rightarrow> vec \<Rightarrow> error + mat" where
  "qng_fim B f knl mode params0 =
     (let params = cast params0;
          psi = f params;
          jac = (if mode = ''fwd'' then jacfwd B f params else cast (jacrev B f params));
          jac = transpose_t (length params) jac
      in case qng_ij knl psi of
           None \<Rightarrow> Inl (NameError ''ij'')
         | Some ij \<Rightarrow>
             let vij = vmap_argnum0 ij;
                 vvij = vmap_argnum1 vij
             in Inr (vvij jac jac))"

text \<open>The wrapper returned by \<open>qng(f, kernel, postprocess, mode)\<close>.\<close>

definition qng_wrapper ::
  "backend \<Rightarrow> (vec \<Rightarrow> vec) \<Rightarrow> string \<Rightarrow> postprocess \<Rightarrow> string \<Rightarrow> vec \<Rightarrow> error + mat" where
  "qng_wrapper B f knl postprocess mode params =
     (case qng_fim B f knl mode params of
        Inl e \<Rightarrow> Inl e
      | Inr fim \<Rightarrow>
          (case select_post_process postprocess of
             Inl e \<Rightarrow> Inl e
           | Inr post_process \<Rightarrow> Inr (post_process fim)))"

subsection \<open>Quantum natural gradient, second formulation: \<open>qng2\<close>\<close>

text \<open>
  The matrix \<open>fim\<close> of the wrapper of \<open>qng2\<close> before postprocessing (lines 146 to 168):
  the Jacobian, at a copy of the parameters, of the gradient of the overlap.
\<close>

definition inner_product :: "backend \<Rightarrow> (vec \<Rightarrow> vec) \<Rightarrow> string \<Rightarrow> vec \<Rightarrow> vec \<Rightarrow> complex" where
  "inner_product B f knl params params2 =
     (let s = f params;
          s2 = f params2;
          fid = vdot s2 s
      in if knl = ''qng''
         then fid - vdot s2 (stop_gradient B s) * vdot (stop_gradient B s2) s
         else fid)"

definition outer_loop :: "backend \<Rightarrow> (vec \<Rightarrow> vec) \<Rightarrow> string \<Rightarrow> vec \<Rightarrow> vec \<Rightarrow> vec" where
  "outer_loop B f knl params params2 =
     snd (vjp B (\<lambda>p. inner_product B f knl p params2) params 1)"

definition qng2_fim :: "backend \<Rightarrow> (vec \<Rightarrow> vec) \<Rightarrow> string \<Rightarrow> string \<Rightarrow> vec \<Rightarrow> mat" where
  "qng2_fim B f knl mode params =
     (let params2 = copy B params;
          params2 = stop_gradient B params2
      in if mode = ''fwd'' then jacfwd B (outer_loop B f knl params) params2
         else jacrev B (outer_loop B f knl params) params2)"

text \<open>The wrapper returned by \<open>qng2(f, kernel, postprocess, mode)\<close>.\<close>

definition qng2_wrapper ::
  "backend \<Rightarrow> (vec \<Rightarrow> vec) \<Rightarrow> string \<Rightarrow> postprocess \<Rightarrow> string \<Rightarrow> vec \<Rightarrow> error + mat" where
  "qng2_wrapper B f knl postprocess mode params =
     (let fim = qng2_fim B f knl mode params
      in case select_post_process postprocess of
           Inl e \<Rightarrow> Inl e
         | Inr post_process \<Rightarrow> Inr (post_process fim))"

text \<open>A backend whose Jacobians are a given constant matrix, for running the wrappers.\<close>

definition const_backend :: "mat \<Rightarrow> backend" where
  "const_backend J =
     \<lparr>jacfwd = (\<lambda>f p. J), jacrev = (\<lambda>f p. J), vjp = (\<lambda>g p v. (g p, p)),
      stop_gradient = (\<lambda>v. v), copy = (\<lambda>v. v)\<rparr>"

text \<open>Column \<open>k\<close> of a Jacobian: the derivative of the state in parameter \<open>k\<close>.\<close>

definition jac_column :: "mat \<Rightarrow> nat \<Rightarrow> vec" where
  "jac_column J k = map (\<lambda>r. r ! k) J"

text \<open>
  A state function of two parameters, for running the wrappers: it is linear, and its
  Jacobian is the matrix with the rows \<open>(\<i>, 1)\<close> and \<open>(2, 3)\<close>.
\<close>

definition demo_state :: "vec \<Rightarrow> vec" where
  "demo_state p = [\<i> * p ! 0 + p ! 1, 2 * p ! 0 + 3 * p ! 1]"

subsection \<open>What a top-level function returns\<close>

text \<open>
  A function of the module returns either a new callable (a closure that may raise when
  it is called) or a computed value.
\<close>

datatype ('a, 'b) returned = Callable "'a \<Rightarrow> error + 'b" | Computed 'b


subsection \<open>Closed-form evolution: \<open>hamiltonian_evol\<close>\<close>

text \<open>
  Modelled from the spec: the matrix product \<open>a @ reshape(v, [-1, 1])\<close> reshaped to a
  vector (the operator \<open>@\<close> and \<open>backend.reshape\<close> of tensorcircuit.cons, not under src/).
\<close>

definition matvec :: "mat \<Rightarrow> vec \<Rightarrow> vec" where
  "matvec a v = map (\<lambda>r. tensordot1 r v) a"

text \<open>
  Modelled from the spec: \<open>backend.norm\<close> (tensorcircuit.cons, not under src/), the
  Euclidean norm of a vector.
\<close>

definition norm_t :: "vec \<Rightarrow> real" where
  "norm_t v = sqrt (sum_list (map (\<lambda>z. (cmod z)\<^sup>2) v))"

text \<open>
  Modelled from the spec: \<open>backend.stack\<close> (tensorcircuit.cons, not under src/) of a
  Python list of vectors, giving the matrix with these rows; on the empty list numpy and
  jax raise.
\<close>

definition stack_rows :: "vec list \<Rightarrow> error + mat" where
  "stack_rows vs = (if vs = [] then Inl (ValueError ''need at least one array to stack'') else Inr vs)"

text \<open>
  The local function \<open>_evol\<close> (lines 377 to 384). The eigenvalues \<open>es\<close> are real. The
  division by the norm is the one of the reals (the code divides floats, and a state of
  norm 0 gives not-a-number there).
\<close>

definition evol :: "real list \<Rightarrow> mat \<Rightarrow> vec \<Rightarrow> (vec \<Rightarrow> vec) option \<Rightarrow> real \<Rightarrow> vec" where
  "evol es u utpsi0 callback t =
     (let ebetah_utpsi0 = map2 (\<lambda>e x. complex_of_real (exp (- t * e)) * x) es utpsi0;
          psi_exact = matvec (map conj u) ebetah_utpsi0;
          psi_exact = map (\<lambda>z. z / complex_of_real (norm_t psi_exact)) psi_exact
      in case callback of None \<Rightarrow> psi_exact | Some cb \<Rightarrow> cb psi_exact)"

text \<open>
  \<open>hamiltonian_evol(tlist, h, psi0, callback)\<close>. The eigensolver \<open>backend.eigh\<close> is a
  parameter: it returns the eigenvalues and the square matrix whose columns are the
  eigenvectors.
\<close>

definition hamiltonian_evol ::
  "(mat \<Rightarrow> real list \<times> mat) \<Rightarrow> real list \<Rightarrow> mat \<Rightarrow> vec \<Rightarrow> (vec \<Rightarrow> vec) option
     \<Rightarrow> error + (unit, mat) returned" where
  "hamiltonian_evol eigh tlist h psi0 callback =
     (let (es, u) = eigh h;
          utpsi0 = matvec (transpose_t (length u) u) psi0
      in case stack_rows (map (evol es u utpsi0 callback) tlist) of
           Inl e \<Rightarrow> Inl e
         | Inr states \<Rightarrow> Inr (Computed states))"

text \<open>
  The evolution as the specification words it, for a Hamiltonian with the
  eigendecomposition \<open>h = u diag(es) u\<^sup>\<dagger>\<close>: the state \<open>exp(-t h) psi0 = u diag(exp(-t es)) u\<^sup>\<dagger> psi0\<close>,
  normalized.
\<close>

definition dagger :: "mat \<Rightarrow> mat" where
  "dagger u = map conj (transpose_t (length u) u)"

definition diag :: "real list \<Rightarrow> mat" where
  "diag es = map (\<lambda>i. map (\<lambda>j. if i = j then complex_of_real (es ! i) else 0) [0..<length es]) [0..<length es]"

definition mat_mul :: "mat \<Rightarrow> mat \<Rightarrow> mat" where
  "mat_mul a b = map (\<lambda>r. map (\<lambda>c. tensordot1 r c) (transpose_t (length (hd b)) b)) a"

definition imaginary_time_state :: "real list \<Rightarrow> mat \<Rightarrow> real \<Rightarrow> vec \<Rightarrow> vec" where
  "imaginary_time_state es u t psi0 =
     (let v = matvec u (map2 (\<lambda>e x. complex_of_real (exp (- t * e)) * x) es (matvec (dagger u) psi0))
      in map (\<lambda>z. z / complex_of_real (norm_t v)) v)"

text \<open>A complex Hermitian matrix with eigenvalues 0 and 1, and its unitary of eigenvectors.\<close>

definition h_demo :: mat where
  "h_demo = [[16 / 25, 12 * \<i> / 25], [- 12 * \<i> / 25, 9 / 25]]"

definition u_demo :: mat where
  "u_demo = [[3 / 5, 4 * \<i> / 5], [4 * \<i> / 5, 3 / 5]]"

definition eigh_demo :: "mat \<Rightarrow> real list \<times> mat" where
  "eigh_demo h = ([0, 1], u_demo)"

subsection \<open>Shaped tensors\<close>

text \<open>
  Where the code reshapes, slices and stacks, a tensor is its shape and its entries in
  row-major order. A well-formed tensor has as many entries as its shape says.
\<close>

datatype 'a tensor = Tensor (shape: "nat list") (data: "'a list")

definition wf_tensor :: "'a tensor \<Rightarrow> bool" where
  "wf_tensor t \<longleftrightarrow> length (data t) = prod_list (shape t)"

text \<open>Sequencing of calls that may raise: the first exception ends the computation.\<close>

definition bind_e :: "error + 'a \<Rightarrow> ('a \<Rightarrow> error + 'b) \<Rightarrow> error + 'b" where
  "bind_e m k = (case m of Inl e \<Rightarrow> Inl e | Inr x \<Rightarrow> k x)"

fun sequence_e :: "(error + 'a) list \<Rightarrow> error + 'a list" where
  "sequence_e [] = Inr []"
| "sequence_e (m # ms) = bind_e m (\<lambda>x. bind_e (sequence_e ms) (\<lambda>xs. Inr (x # xs)))"

text \<open>
  Modelled from the spec: \<open>backend.reshape\<close> (tensorcircuit.cons, not under src/). The
  new shape may hold one \<open>-1\<close>, the dimension to infer; the number of entries must fit.
\<close>

definition reshape :: "'a tensor \<Rightarrow> int list \<Rightarrow> error + 'a tensor" where
  "reshape t ns =
     (let size = length (data t);
          known = nat (prod_list (filter (\<lambda>d. d \<noteq> - 1) ns));
          holes = length (filter (\<lambda>d. d = - 1) ns)
      in if list_ex (\<lambda>d. d < - 1) ns \<or> 1 < holes then Inl (ValueError ''reshape'')
         else if holes = 0 then
           (if known = size then Inr (Tensor (map nat ns) (data t))
            else Inl (ValueError ''reshape''))
         else if known \<noteq> 0 \<and> size mod known = 0 then
           Inr (Tensor (map (\<lambda>d. if d = - 1 then size div known else nat d) ns) (data t))
         else Inl (ValueError ''reshape''))"

text \<open>Row \<open>k\<close> of a tensor along its first axis.\<close>

definition row :: "'a tensor \<Rightarrow> nat \<Rightarrow> 'a tensor" where
  "row a k =
     (let sh = tl (shape a)
      in Tensor sh (take (prod_list sh) (drop (k * prod_list sh) (data a))))"

text \<open>
  The indexing \<open>a[i]\<close> with \<open>0 \<le> i\<close>, and the slices \<open>a[-k:]\<close> and \<open>a[:-k]\<close> with \<open>0 < k\<close>, of
  a tensor. A slice is cut to the rows there are.
\<close>

definition index0 :: "'a tensor \<Rightarrow> nat \<Rightarrow> error + 'a tensor" where
  "index0 a i =
     (case shape a of
        [] \<Rightarrow> Inl (IndexError ''too many indices'')
      | n # sh \<Rightarrow> if i < n then Inr (row a i) else Inl (IndexError ''index out of bounds''))"

definition slice_last :: "'a tensor \<Rightarrow> nat \<Rightarrow> error + 'a tensor" where
  "slice_last a k =
     (case shape a of
        [] \<Rightarrow> Inl (IndexError ''too many indices'')
      | n # sh \<Rightarrow> Inr (Tensor (min k n # sh) (drop ((n - k) * prod_list sh) (data a))))"

definition slice_init :: "'a tensor \<Rightarrow> nat \<Rightarrow> error + 'a tensor" where
  "slice_init a k =
     (case shape a of
        [] \<Rightarrow> Inl (IndexError ''too many indices'')
      | n # sh \<Rightarrow> Inr (Tensor ((n - k) # sh) (take ((n - k) * prod_list sh) (data a))))"

text \<open>
  Modelled from the spec: \<open>backend.stack\<close> and \<open>backend.concat\<close> (tensorcircuit.cons, not
  under src/). \<open>stack\<close> puts tensors of one shape along a new first axis, and numpy and
  jax raise on the empty list; \<open>concat\<close> joins tensors along their first axis.
\<close>

definition stack :: "'a tensor list \<Rightarrow> error + 'a tensor" where
  "stack ts =
     (case ts of
        [] \<Rightarrow> Inl (ValueError ''need at least one array to stack'')
      | t # _ \<Rightarrow>
          if list_all (\<lambda>s. shape s = shape t) ts
          then Inr (Tensor (length ts # shape t) (concat (map data ts)))
          else Inl (ValueError ''all input arrays must have the same shape''))"

definition concat_t :: "'a tensor list \<Rightarrow> error + 'a tensor" where
  "concat_t ts =
     (case ts of
        [] \<Rightarrow> Inl (ValueError ''need at least one array to concatenate'')
      | t # _ \<Rightarrow>
          if list_all (\<lambda>s. shape s \<noteq> [] \<and> tl (shape s) = tl (shape t)) ts
          then Inr (Tensor (sum_list (map (\<lambda>s. hd (shape s)) ts) # tl (shape t))
                      (concat (map data ts)))
          else Inl (ValueError ''concat: dimensions do not match''))"

text \<open>
  Modelled from the spec: \<open>backend.vmap(f, vectorized_argnums)\<close> (tensorcircuit.cons, not
  under src/), the vectorized map: it runs \<open>f\<close> on row \<open>k\<close> of every vectorized argument,
  with the other arguments as they are, for every \<open>k\<close> below the common size of the first
  axis, and stacks the results. The function \<open>f\<close> is total and takes the list of its
  positional arguments. A batch of no row is not modelled (the stack of no result
  raises here).
\<close>

definition vmap ::
  "('a tensor list \<Rightarrow> 'b tensor) \<Rightarrow> nat list \<Rightarrow> 'a tensor list \<Rightarrow> error + 'b tensor" where
  "vmap f argnums args =
     (if argnums = [] \<or> \<not> list_all (\<lambda>i. i < length args \<and> shape (args ! i) \<noteq> []) argnums
      then Inl (ValueError ''vmap: no axis to map'')
      else
        let n = hd (shape (args ! hd argnums))
        in if \<not> list_all (\<lambda>i. hd (shape (args ! i)) = n) argnums
           then Inl (ValueError ''vmap: inconsistent sizes'')
           else stack (map (\<lambda>k. f (map (\<lambda>(j, a). if j \<in> set argnums then row a k else a)
                                     (enumerate 0 args)))
                         [0..<n]))"

subsection \<open>Chunked vectorized map: \<open>adaptive_vmap\<close>\<close>

text \<open>
  Lines 32 to 46, for one positional argument: a vectorized argument is cut into the
  rows of the full chunks, reshaped to \<open>[s1, chunk_size, ...]\<close>, and the rest; another
  argument is passed on. The second component is read only when \<open>s2\<close> is not 0.
\<close>

definition split_arg ::
  "nat list \<Rightarrow> nat \<Rightarrow> nat \<Rightarrow> nat \<Rightarrow> nat \<times> 'a tensor \<Rightarrow> error + ('a tensor \<times> 'a tensor)" where
  "split_arg vectorized_argnums chunk_size s1 s2 ia =
     (let i = fst ia; arg = snd ia
      in if i \<in> set vectorized_argnums then
           bind_e (if s2 \<noteq> 0
                   then bind_e (slice_last arg s2) (\<lambda>arg_rest.
                        bind_e (slice_init arg s2) (\<lambda>arg. Inr (arg, arg_rest)))
                   else Inr (arg, arg))
             (\<lambda>(arg, arg_rest).
                bind_e (reshape arg ([int s1, int chunk_size] @ map int (tl (shape arg))))
                  (\<lambda>arg. Inr (arg, arg_rest)))
         else Inr (arg, arg))"

text \<open>The loop of lines 32 to 46 over the positional arguments.\<close>

definition split_args ::
  "nat list \<Rightarrow> nat \<Rightarrow> nat \<Rightarrow> nat \<Rightarrow> 'a tensor list \<Rightarrow> error + ('a tensor \<times> 'a tensor) list" where
  "split_args vectorized_argnums chunk_size s1 s2 args =
     sequence_e (map (split_arg vectorized_argnums chunk_size s1 s2) (enumerate 0 args))"

text \<open>
  The loop of lines 48 to 55: chunk \<open>i\<close> of every vectorized argument goes through the
  plain vectorized map, for \<open>i\<close> from 0 to \<open>s1 - 1\<close>.
\<close>

definition chunk_results ::
  "('a tensor list \<Rightarrow> 'b tensor) \<Rightarrow> nat list \<Rightarrow> nat \<Rightarrow> 'a tensor list
     \<Rightarrow> error + 'b tensor list" where
  "chunk_results f vectorized_argnums s1 reshape_args =
     sequence_e (map (\<lambda>i.
         bind_e (sequence_e (map (\<lambda>(j, a). if j \<in> set vectorized_argnums then index0 a i
                                         else Inr a)
                            (enumerate 0 reshape_args)))
           (vmap f vectorized_argnums))
       [0..<s1])"

text \<open>
  Lines 56 to 62: the results of the chunks are stacked, and the two first axes of the
  stack are merged; the axes after them are merged into one when there is any.
\<close>

definition merge_chunks :: "'b tensor list \<Rightarrow> error + 'b tensor" where
  "merge_chunks r =
     bind_e (stack r) (\<lambda>r.
       let rshape = shape r
       in bind_e (if length rshape = 2 then Inr [int (rshape ! 0 * rshape ! 1)]
                  else if length rshape < 2 then Inl (IndexError ''list index out of range'')
                  else Inr [int (rshape ! 0 * rshape ! 1), - 1])
            (\<lambda>nshape. reshape r nshape))"

text \<open>The wrapper returned by \<open>adaptive_vmap\<close> for a chunk size (lines 26 to 66).\<close>

definition adaptive_vmap_wrapper ::
  "('a tensor list \<Rightarrow> 'b tensor) \<Rightarrow> nat list \<Rightarrow> nat \<Rightarrow> 'a tensor list \<Rightarrow> error + 'b tensor" where
  "adaptive_vmap_wrapper f vectorized_argnums chunk_size args =
     (case vectorized_argnums of
        [] \<Rightarrow> Inl (IndexError ''tuple index out of range'')
      | v0 # _ \<Rightarrow>
          if length args \<le> v0 then Inl (IndexError ''tuple index out of range'')
          else
            (case shape (args ! v0) of
               [] \<Rightarrow> Inl (IndexError ''tuple index out of range'')
             | n # _ \<Rightarrow>
                 if chunk_size = 0 then Inl ZeroDivisionError
                 else
                   let s1 = n div chunk_size; s2 = n mod chunk_size
                   in bind_e (split_args vectorized_argnums chunk_size s1 s2 args) (\<lambda>pairs.
                      let reshape_args = map fst pairs;
                          rest_args = (if s2 \<noteq> 0 then map snd pairs else []);
                          vm = vmap f vectorized_argnums
                      in bind_e (chunk_results f vectorized_argnums s1 reshape_args) (\<lambda>r.
                         bind_e (merge_chunks r) (\<lambda>r.
                         if s2 \<noteq> 0
                         then bind_e (vm rest_args) (\<lambda>rest_r. concat_t [r, rest_r])
                         else Inr r)))))"

text \<open>
  \<open>adaptive_vmap(f, vectorized_argnums, chunk_size)\<close>. A single integer for
  \<open>vectorized_argnums\<close> is the list of that integer.
\<close>

definition adaptive_vmap ::
  "('a tensor list \<Rightarrow> 'b tensor) \<Rightarrow> nat list \<Rightarrow> nat option
     \<Rightarrow> ('a tensor list, 'b tensor) returned" where
  "adaptive_vmap f vectorized_argnums chunk_size =
     (case chunk_size of
        None \<Rightarrow> Callable (vmap f vectorized_argnums)
      | Some c \<Rightarrow> Callable (adaptive_vmap_wrapper f vectorized_argnums c))"

text \<open>Two functions of one argument: the identity on a scalar, and one with a matrix as result.\<close>

definition scalar_id :: "'a tensor list \<Rightarrow> 'a tensor" where
  "scalar_id args = hd args"

definition to_matrix :: "'a tensor list \<Rightarrow> 'a tensor" where
  "to_matrix args = Tensor [1, 1] (data (hd args))"

subsection \<open>Parameter shift: \<open>parameter_shift_grad\<close> and \<open>parameter_shift_grad_v2\<close>\<close>

text \<open>
  Modelled from the spec: \<open>backend.shape_tuple\<close>, \<open>backend.sizen\<close>, \<open>backend.eye\<close> as a
  shaped tensor, \<open>backend.tile(arg, [size, 1, ..., 1])\<close> and \<open>backend.jit\<close>
  (tensorcircuit.cons, not under src/): the shape, the number of entries, the identity
  matrix, the repetition of a tensor along its first axis, and the compilation of a
  function, which keeps its meaning.
\<close>

definition shape_tuple :: "'a tensor \<Rightarrow> nat list" where
  "shape_tuple t = shape t"

definition sizen :: "'a tensor \<Rightarrow> nat" where
  "sizen t = prod_list (shape t)"

definition eye_t :: "nat \<Rightarrow> real tensor" where
  "eye_t n = Tensor [n, n] (concat (map (\<lambda>i. map (\<lambda>j. if i = j then 1 else 0) [0..<n]) [0..<n]))"

definition tile_rows :: "nat \<Rightarrow> 'a tensor \<Rightarrow> 'a tensor" where
  "tile_rows reps t =
     Tensor (case shape t of [] \<Rightarrow> [] | n # sh \<Rightarrow> (reps * n) # sh)
       (concat (replicate reps (data t)))"

definition jit_compile :: "('a \<Rightarrow> 'b) \<Rightarrow> ('a \<Rightarrow> 'b)" where
  "jit_compile f = f"

text \<open>
  The arithmetic of tensors the code uses: a scalar times a tensor, a tensor divided by
  a scalar (in the reals; the code divides floats), and the sum and the difference of two
  tensors of one shape (broadcasting between different shapes is not modelled and is an
  error here).
\<close>

definition scale_t :: "real \<Rightarrow> real tensor \<Rightarrow> real tensor" where
  "scale_t c t = Tensor (shape t) (map ((*) c) (data t))"

definition div_t :: "real tensor \<Rightarrow> real \<Rightarrow> real tensor" where
  "div_t t c = Tensor (shape t) (map (\<lambda>x. x / c) (data t))"

definition add_t :: "real tensor \<Rightarrow> real tensor \<Rightarrow> error + real tensor" where
  "add_t a b =
     (if shape a = shape b then Inr (Tensor (shape a) (map2 (+) (data a) (data b)))
      else Inl (ValueError ''shapes do not match''))"

definition sub_t :: "real tensor \<Rightarrow> real tensor \<Rightarrow> error + real tensor" where
  "sub_t a b =
     (if shape a = shape b then Inr (Tensor (shape a) (map2 (-) (data a) (data b)))
      else Inl (ValueError ''shapes do not match''))"

text \<open>What \<open>grad_f\<close> returns: the gradient itself, or the tuple of the gradients.\<close>

datatype grad_result = Single "real tensor" | Tuple "real tensor list"

text \<open>
  Lines 244 to 255 (and 312 to 323): the two lists of arguments in which argument \<open>i\<close>
  is the batch of its copies shifted by plus and by minus \<open>shifts[0]\<close> along each entry.
\<close>

definition shifted_args ::
  "real \<Rightarrow> real tensor list \<Rightarrow> nat \<Rightarrow> error + (real tensor list \<times> real tensor list)" where
  "shifted_args shift0 args i =
     (if length args \<le> i then Inl (IndexError ''tuple index out of range'')
      else
        let shape = shape_tuple (args ! i);
            size = sizen (args ! i);
            onehot = eye_t size;
            onehot = cast onehot
        in bind_e (reshape onehot (map int (size # shape))) (\<lambda>onehot.
           let onehot = scale_t shift0 onehot
           in bind_e (reshape (args ! i) (map int (1 # shape))) (\<lambda>arg.
              let batched_arg = tile_rows size arg
              in bind_e (add_t batched_arg onehot) (\<lambda>plus.
                 bind_e (sub_t batched_arg onehot) (\<lambda>minus.
                 Inr (args[i := plus], args[i := minus]))))))"

text \<open>
  Line 256 to 257 (and 337 to 338): the list \<open>vfs\<close> is read at the value \<open>i\<close> of the
  argument number.
\<close>

definition shift_difference ::
  "(real tensor list \<Rightarrow> error + real tensor) list \<Rightarrow> real \<Rightarrow> nat list \<Rightarrow> nat
     \<Rightarrow> real tensor list \<Rightarrow> real tensor list \<Rightarrow> error + real tensor" where
  "shift_difference vfs shift1 shp i nargs nargs2 =
     (if length vfs \<le> i then Inl (IndexError ''list index out of range'')
      else bind_e ((vfs ! i) nargs) (\<lambda>a.
           bind_e ((vfs ! i) nargs2) (\<lambda>b.
           bind_e (sub_t a b) (\<lambda>r.
           reshape (div_t r shift1) (map int shp)))))"

text \<open>Lines 259 to 261 (and 340 to 342).\<close>

definition pack_gradients :: "nat list \<Rightarrow> real tensor list \<Rightarrow> error + grad_result" where
  "pack_gradients argnums grad_values =
     (if 1 < length argnums then Inr (Tuple grad_values)
      else case grad_values of
             [] \<Rightarrow> Inl (IndexError ''list index out of range'')
           | g # _ \<Rightarrow> Inr (Single g))"

text \<open>The function \<open>grad_f\<close> returned by \<open>parameter_shift_grad\<close>.\<close>

definition grad_f ::
  "(real tensor list \<Rightarrow> real tensor) \<Rightarrow> nat list \<Rightarrow> real \<times> real \<Rightarrow> real tensor list
     \<Rightarrow> error + grad_result" where
  "grad_f f argnums shifts args =
     (let vfs = map (\<lambda>i. vmap f [i]) argnums
      in bind_e (sequence_e (map (\<lambda>i.
             bind_e (shifted_args (fst shifts) args i) (\<lambda>(nargs, nargs2).
               shift_difference vfs (snd shifts) (shape_tuple (args ! i)) i nargs nargs2))
           argnums))
         (pack_gradients argnums))"

text \<open>
  \<open>parameter_shift_grad(f, argnums, jit, shifts)\<close>. A single integer for \<open>argnums\<close> is the
  list of that integer; the default shifts are \<open>(pi / 2, 2)\<close>.
\<close>

definition default_shifts :: "real \<times> real" where
  "default_shifts = (pi / 2, 2)"

definition parameter_shift_grad ::
  "(real tensor list \<Rightarrow> real tensor) \<Rightarrow> nat list \<Rightarrow> bool \<Rightarrow> real \<times> real
     \<Rightarrow> (real tensor list, grad_result) returned" where
  "parameter_shift_grad f argnums jit shifts =
     (let f = (if jit then jit_compile f else f)
      in Callable (grad_f f argnums shifts))"

text \<open>
  Lines 328 to 330 and 333 to 335: \<open>size\<close> successive splits of a random key; the
  splitting \<open>backend.random_split\<close> is a parameter.
\<close>

fun split_keys :: "('k \<Rightarrow> 'k \<times> 'k) \<Rightarrow> nat \<Rightarrow> 'k \<Rightarrow> 'k \<times> 'k list" where
  "split_keys random_split 0 key = (key, [])"
| "split_keys random_split (Suc n) key =
     (let (key, subkey) = random_split key;
          (key, keys) = split_keys random_split n key
      in (key, subkey # keys))"

text \<open>Lines 324 to 336: the random arguments of the two calls get fresh keys.\<close>

fun fresh_keys ::
  "(real tensor \<Rightarrow> real tensor \<times> real tensor) \<Rightarrow> nat \<Rightarrow> real tensor list \<Rightarrow> nat list
     \<Rightarrow> real tensor list \<times> real tensor list
     \<Rightarrow> error + (real tensor list \<times> real tensor list)" where
  "fresh_keys random_split sz args [] nn = Inr nn"
| "fresh_keys random_split sz args (j # js) nn =
     (if length args \<le> j then Inl (IndexError ''tuple index out of range'')
      else
        let (key, keys) = split_keys random_split sz (args ! j)
        in bind_e (stack keys) (\<lambda>k1.
           let (key, keys) = split_keys random_split sz key
           in bind_e (stack keys) (\<lambda>k2.
              fresh_keys random_split sz args js ((fst nn)[j := k1], (snd nn)[j := k2]))))"

text \<open>The function \<open>grad_f\<close> returned by \<open>parameter_shift_grad_v2\<close>.\<close>

definition grad_f_v2 ::
  "(real tensor \<Rightarrow> real tensor \<times> real tensor) \<Rightarrow> (real tensor list \<Rightarrow> real tensor)
     \<Rightarrow> nat list \<Rightarrow> nat list option \<Rightarrow> real \<times> real \<Rightarrow> real tensor list
     \<Rightarrow> error + grad_result" where
  "grad_f_v2 random_split f argnums random_argnums shifts args =
     (let vfs = (case random_argnums of
                   None \<Rightarrow> map (\<lambda>i. vmap f [i]) argnums
                 | Some rs \<Rightarrow> map (\<lambda>i. vmap f ([i] @ rs)) argnums)
      in bind_e (sequence_e (map (\<lambda>i.
             bind_e (shifted_args (fst shifts) args i) (\<lambda>nn.
             bind_e (case random_argnums of
                       None \<Rightarrow> Inr nn
                     | Some rs \<Rightarrow> fresh_keys random_split (sizen (args ! i)) args rs nn)
               (\<lambda>(nargs, nargs2).
                  shift_difference vfs (snd shifts) (shape_tuple (args ! i)) i nargs nargs2)))
           argnums))
         (pack_gradients argnums))"

definition parameter_shift_grad_v2 ::
  "(real tensor \<Rightarrow> real tensor \<times> real tensor) \<Rightarrow> (real tensor list \<Rightarrow> real tensor)
     \<Rightarrow> nat list \<Rightarrow> bool \<Rightarrow> nat list option \<Rightarrow> real \<times> real
     \<Rightarrow> (real tensor list, grad_result) returned" where
  "parameter_shift_grad_v2 random_split f argnums jit random_argnums shifts =
     (let f = (if jit then jit_compile f else f)
      in Callable (grad_f_v2 random_split f argnums random_argnums shifts))"

text \<open>A scalar function of two arguments: the sum of all entries of both.\<close>

definition sum_both :: "real tensor list \<Rightarrow> real tensor" where
  "sum_both args = Tensor [] [sum_list (data (args ! 0)) + sum_list (data (args ! 1))]"

definition no_split :: "real tensor \<Rightarrow> real tensor \<times> real tensor" where
  "no_split key = (key, key)"

subsection \<open>The functions \<open>qng\<close>, \<open>qng2\<close> and \<open>dynamics_matrix\<close>\<close>




subsection \<open>Right-hand side of the evolution: \<open>dynamics_rhs\<close>\<close>

text \<open>
  Modelled from the spec: \<open>backend.grad\<close> and \<open>backend.stop_gradient\<close> (tensorcircuit.cons,
  not under src/), the gradient of a real function of real parameters, and the marker
  that holds a value constant under it. The gradient is taken in forward mode: a
  quantity is the pair of its value and of its tangent (its derivative along the
  direction chosen for the parameters), every operation carries the tangent along by
  its derivative rule, \<open>stop_gradient\<close> sets the tangent to zero, and entry \<open>k\<close> of the
  gradient is the tangent of the result along parameter \<open>k\<close>. The state function \<open>f\<close> is
  given on such pairs: from the parameters and their tangents to the state and its
  tangent.
\<close>

type_synonym dvec = "vec \<times> vec"

definition one_hot :: "nat \<Rightarrow> nat \<Rightarrow> real list" where
  "one_hot n k = map (\<lambda>j. if j = k then 1 else 0) [0..<n]"

definition grad :: "(real list \<times> real list \<Rightarrow> real \<times> real) \<Rightarrow> real list \<Rightarrow> real list" where
  "grad g params = map (\<lambda>k. snd (g (params, one_hot (length params) k))) [0..<length params]"

definition stop_gradient_d :: "dvec \<Rightarrow> dvec" where
  "stop_gradient_d w = (fst w, map (\<lambda>t. 0) (snd w))"

definition conj_d :: "dvec \<Rightarrow> dvec" where
  "conj_d w = (conj (fst w), conj (snd w))"

definition real_d :: "complex \<times> complex \<Rightarrow> real \<times> real" where
  "real_d e = (Re (fst e), Re (snd e))"

text \<open>
  Modelled from the spec: the matrix products of \<open>dynamics_rhs\<close> (the operator \<open>@\<close> and
  \<open>backend.sparse_dense_matmul\<close> of tensorcircuit.cons, not under src/) with a constant
  square matrix \<open>h\<close>: the row vector \<open>wl @ h\<close>, the column vector \<open>h @ wr\<close>, and the product
  of a row with a column, whose tangent follows the product rule.
\<close>

definition vecmat :: "vec \<Rightarrow> mat \<Rightarrow> vec" where
  "vecmat x h = map (\<lambda>c. tensordot1 x (map (\<lambda>r. r ! c) h)) [0..<length h]"

definition vecmat_d :: "dvec \<Rightarrow> mat \<Rightarrow> dvec" where
  "vecmat_d wl h = (vecmat (fst wl) h, vecmat (snd wl) h)"

definition matvec_d :: "mat \<Rightarrow> dvec \<Rightarrow> dvec" where
  "matvec_d h wr = (matvec h (fst wr), matvec h (snd wr))"

definition dot_d :: "dvec \<Rightarrow> dvec \<Rightarrow> complex \<times> complex" where
  "dot_d a b = (tensordot1 (fst a) (fst b),
                tensordot1 (snd a) (fst b) + tensordot1 (fst a) (snd b))"

text \<open>The Hamiltonian is a dense or a sparse matrix; both are given by their entries.\<close>

datatype hamiltonian = Dense mat | Sparse mat

fun is_sparse :: "hamiltonian \<Rightarrow> bool" where
  "is_sparse (Dense h) = False"
| "is_sparse (Sparse h) = True"

fun entries :: "hamiltonian \<Rightarrow> mat" where
  "entries (Dense h) = h"
| "entries (Sparse h) = h"

text \<open>The local function \<open>energy\<close> (lines 191 to 202) and the wrapper of \<open>dynamics_rhs\<close>.\<close>

definition energy ::
  "(real list \<times> real list \<Rightarrow> dvec) \<Rightarrow> hamiltonian \<Rightarrow> real list \<times> real list \<Rightarrow> real \<times> real" where
  "energy f h params =
     (let w = f params;
          wr = stop_gradient_d w;
          wl = conj_d w;
          e = (if \<not> is_sparse h then dot_d (vecmat_d wl (entries h)) wr
               else let tmp = matvec_d (entries h) wr in dot_d wl tmp)
      in real_d e)"

definition dynamics_rhs_wrapper ::
  "(real list \<times> real list \<Rightarrow> dvec) \<Rightarrow> hamiltonian \<Rightarrow> real list \<Rightarrow> error + real list" where
  "dynamics_rhs_wrapper f h params = Inr (grad (energy f h) params)"

definition dynamics_rhs ::
  "(real list \<times> real list \<Rightarrow> dvec) \<Rightarrow> hamiltonian \<Rightarrow> (real list, real list) returned" where
  "dynamics_rhs f h = Callable (dynamics_rhs_wrapper f h)"

text \<open>
  A state function of one parameter on values and tangents, \<open>psi(p) = (1, \<i> p)\<close>, and the
  eigensolver of the one by one matrix \<open>(1)\<close>.
\<close>

definition line_state :: "real list \<times> real list \<Rightarrow> dvec" where
  "line_state p = ([1, \<i> * complex_of_real (fst p ! 0)], [0, \<i> * complex_of_real (snd p ! 0)])"


text \<open>
  The tensor \<open>x + s e_k\<close>: the entry of flat index \<open>k\<close> of \<open>x\<close> is shifted by \<open>s\<close>. The value
  of a scalar tensor is its only entry.
\<close>

definition shifted :: "real tensor \<Rightarrow> nat \<Rightarrow> real \<Rightarrow> real tensor" where
  "shifted x k s = Tensor (shape x) (map (\<lambda>j. data x ! j + (if j = k then s else 0)) [0..<sizen x])"

definition scalar_value :: "real tensor \<Rightarrow> real" where
  "scalar_value t = hd (data t)"

section \<open>Properties\<close>

subsection \<open>Errors of \<open>qng\<close> and \<open>qng2\<close>\<close>

lemma select_post_process_error:
  "select_post_process p = Inl e \<longleftrightarrow>
     (e = ValueError ''Unsupported postprocess option'' \<and> (\<exists>s. p = PStr s \<and> s \<noteq> ''qng''))"
  by (cases p) (auto simp: select_post_process_def)

lemma qng_fim_supported_kernel:
  assumes "knl = ''qng'' \<or> knl = ''dynamics''"
  shows "\<exists>fim. qng_fim B f knl mode params = Inr fim"
  using assms by (auto simp: qng_fim_def qng_ij_def Let_def)

text \<open>
  C6. With a supported kernel (\<open>"qng"\<close> or \<open>"dynamics"\<close>), the wrapper of
  \<open>qng(f, postprocess=p)\<close>, and with any kernel the wrapper of \<open>qng2(f, postprocess=p)\<close>,
  raise \<open>ValueError("Unsupported postprocess option")\<close> exactly when \<open>p\<close> is a string other
  than \<open>"qng"\<close>, and they raise nothing else; when \<open>p\<close> is \<open>None\<close> the matrix is returned as
  it is, and when \<open>p\<close> is a callable the result is the callable applied to the matrix.
\<close>

theorem postprocess_validation:
  "(knl = ''qng'' \<or> knl = ''dynamics'' \<longrightarrow>
      (qng_wrapper B f knl p mode params = Inl e \<longleftrightarrow>
         e = ValueError ''Unsupported postprocess option'' \<and> (\<exists>s. p = PStr s \<and> s \<noteq> ''qng''))
      \<and> (\<exists>fim. qng_fim B f knl mode params = Inr fim
            \<and> qng_wrapper B f knl PNone mode params = Inr fim
            \<and> qng_wrapper B f knl (PCallable g) mode params = Inr (g fim)))
   \<and> (qng2_wrapper B f knlb p mode params = Inl e \<longleftrightarrow>
        e = ValueError ''Unsupported postprocess option'' \<and> (\<exists>s. p = PStr s \<and> s \<noteq> ''qng''))
   \<and> qng2_wrapper B f knlb PNone mode params = Inr (qng2_fim B f knlb mode params)
   \<and> qng2_wrapper B f knlb (PCallable g) mode params = Inr (g (qng2_fim B f knlb mode params))"
proof -
  have 1: "qng_wrapper B f knl p mode params = Inl e \<longleftrightarrow>
      e = ValueError ''Unsupported postprocess option'' \<and> (\<exists>s. p = PStr s \<and> s \<noteq> ''qng'')"
    and 3: "\<exists>fim. qng_fim B f knl mode params = Inr fim
            \<and> qng_wrapper B f knl PNone mode params = Inr fim
            \<and> qng_wrapper B f knl (PCallable g) mode params = Inr (g fim)"
    if k: "knl = ''qng'' \<or> knl = ''dynamics''"
  proof -
    obtain fim where fim: "qng_fim B f knl mode params = Inr fim"
      using qng_fim_supported_kernel [OF k] by blast
    show "qng_wrapper B f knl p mode params = Inl e \<longleftrightarrow>
      e = ValueError ''Unsupported postprocess option'' \<and> (\<exists>s. p = PStr s \<and> s \<noteq> ''qng'')"
      using select_post_process_error [of p e]
      by (auto simp: qng_wrapper_def fim split: sum.splits)
    show "\<exists>fim. qng_fim B f knl mode params = Inr fim
            \<and> qng_wrapper B f knl PNone mode params = Inr fim
            \<and> qng_wrapper B f knl (PCallable g) mode params = Inr (g fim)"
      by (simp add: qng_wrapper_def fim select_post_process_def id_post_def)
  qed
  have 2: "qng2_wrapper B f knlb p mode params = Inl e \<longleftrightarrow>
      e = ValueError ''Unsupported postprocess option'' \<and> (\<exists>s. p = PStr s \<and> s \<noteq> ''qng'')"
    using select_post_process_error [of p e]
    by (auto simp: qng2_wrapper_def Let_def split: sum.splits)
  have 4: "qng2_wrapper B f knlb PNone mode params = Inr (qng2_fim B f knlb mode params)"
    by (simp add: qng2_wrapper_def select_post_process_def id_post_def)
  have 6: "qng2_wrapper B f knlb (PCallable g) mode params
       = Inr (g (qng2_fim B f knlb mode params))"
    by (simp add: qng2_wrapper_def select_post_process_def)
  from 1 2 3 4 6 show ?thesis by blast
qed

theorem postprocess_validation_witness:
  "qng_wrapper (const_backend [[\<i>, 1], [2, 3]]) demo_state ''dynamics'' (PStr ''none'') ''fwd'' [1, 1]
     = Inl (ValueError ''Unsupported postprocess option'')
   \<and> qng2_wrapper (const_backend [[\<i>, 1], [2, 3]]) demo_state ''qng'' (PStr ''none'') ''fwd'' [1, 1]
     = Inl (ValueError ''Unsupported postprocess option'')
   \<and> (\<exists>fim. qng_wrapper (const_backend [[\<i>, 1], [2, 3]]) demo_state ''dynamics'' PNone ''fwd'' [1, 1]
     = Inr fim
     \<and> qng_wrapper (const_backend [[\<i>, 1], [2, 3]]) demo_state ''dynamics'' (PCallable real_t) ''fwd'' [1, 1]
     = Inr (real_t fim))"
  using postprocess_validation [where knl = "''dynamics''" and knlb = "''qng''"
      and B = "const_backend [[\<i>, 1], [2, 3]]" and f = demo_state and p = "PStr ''none''"
      and mode = "''fwd''" and params = "[1, 1]" and g = real_t
      and e = "ValueError ''Unsupported postprocess option''"]
  by auto

text \<open>
  The claim as it is stated, that this \<open>ValueError\<close> is the only error the functions of
  the module raise, fails on the wrapper of \<open>qng\<close> itself: called with the kernel
  \<open>"fisher"\<close> and the unsupported postprocess option \<open>"bad"\<close> it raises the name error of the
  unbound \<open>ij\<close>, and not the \<open>ValueError\<close>.
\<close>

theorem unsupported_kernel_counterexample:
  "qng_wrapper (const_backend [[\<i>, 1], [2, 3]]) demo_state ''fisher'' (PStr ''bad'') ''fwd'' [1, 1]
     = Inl (NameError ''ij'')
   \<and> qng_wrapper (const_backend [[\<i>, 1], [2, 3]]) demo_state ''fisher'' (PStr ''bad'') ''fwd'' [1, 1]
     \<noteq> Inl (ValueError ''Unsupported postprocess option'')"
  by (simp add: qng_wrapper_def qng_fim_def qng_ij_def Let_def)

subsection \<open>The kernel argument of \<open>qng\<close>\<close>

text \<open>
  C9. For a kernel other than \<open>"qng"\<close> and \<open>"dynamics"\<close> the wrapper of \<open>qng\<close> fails on
  the unbound local \<open>ij\<close> (a name error, whatever the postprocess option is, so also
  where an unsupported option would give the \<open>ValueError\<close>); for the two supported
  kernels it never fails so.
\<close>

theorem qng_kernel_precondition:
  "(knl \<noteq> ''qng'' \<and> knl \<noteq> ''dynamics'' \<longrightarrow>
      qng_wrapper B f knl p mode params = Inl (NameError ''ij''))
   \<and> (knl = ''qng'' \<or> knl = ''dynamics'' \<longrightarrow>
      (\<forall>v. qng_wrapper B f knl p mode params \<noteq> Inl (NameError v)))"
proof (intro conjI impI)
  assume "knl \<noteq> ''qng'' \<and> knl \<noteq> ''dynamics''"
  then show "qng_wrapper B f knl p mode params = Inl (NameError ''ij'')"
    by (simp add: qng_wrapper_def qng_fim_def qng_ij_def Let_def)
next
  assume k: "knl = ''qng'' \<or> knl = ''dynamics''"
  then obtain fim where "qng_fim B f knl mode params = Inr fim"
    by (auto simp: qng_fim_def qng_ij_def Let_def)
  then show "\<forall>v. qng_wrapper B f knl p mode params \<noteq> Inl (NameError v)"
    using select_post_process_error [of p]
    by (auto simp: qng_wrapper_def split: sum.splits)
qed

theorem qng_kernel_precondition_witness:
  "qng_wrapper (const_backend [[1]]) (\<lambda>p. p) ''fisher'' (PStr ''none'') ''fwd'' [1]
     = Inl (NameError ''ij'')
   \<and> (\<forall>v. qng_wrapper (const_backend [[1]]) (\<lambda>p. p) ''dynamics'' (PStr ''none'') ''fwd'' [1]
     \<noteq> Inl (NameError v))"
  using qng_kernel_precondition [of "''fisher''" "const_backend [[1]]" "\<lambda>p. p" "PStr ''none''" "''fwd''" "[1]"]
    qng_kernel_precondition [of "''dynamics''" "const_backend [[1]]" "\<lambda>p. p" "PStr ''none''" "''fwd''" "[1]"]
  by simp

subsection \<open>The matrix computed by \<open>qng\<close>\<close>

lemma tensordot1_sum:
  "tensordot1 a b = (\<Sum>i<min (length a) (length b). a ! i * b ! i)"
proof -
  have "sum_list (map2 (*) a b) = (\<Sum>i = 0..<length (map2 (*) a b). map2 (*) a b ! i)"
    by (rule sum_list_sum_nth)
  also have "\<dots> = (\<Sum>i = 0..<min (length a) (length b). a ! i * b ! i)"
    by (rule sum.cong) simp_all
  finally show ?thesis
    by (simp add: tensordot1_def atLeast0LessThan)
qed

lemma tensordot1_cnj: "cnj (tensordot1 a b) = tensordot1 (map cnj a) (map cnj b)"
  unfolding tensordot1_def
  by (induction a arbitrary: b) (auto simp: neq_Nil_conv split: list.splits, case_tac b, auto)

lemma vdot_cnj: "vdot a b = cnj (vdot b a)"
proof -
  have "tensordot1 x y = tensordot1 y x" for x y
    unfolding tensordot1_def
    by (induction x arbitrary: y) (case_tac y, auto)+
  then show ?thesis
    by (simp add: vdot_def conj_def tensordot1_cnj comp_def)
qed

text \<open>
  Entry \<open>(i, j)\<close> of the matrix before postprocessing pairs column \<open>j\<close> on the bra side
  with column \<open>i\<close> on the ket side: the outer \<open>vmap\<close> runs over the second argument.
\<close>

lemma qng_fim_entry:
  assumes "i < length params" "j < length params"
  shows "\<exists>M. qng_fim B f ''qng'' ''fwd'' params = Inr M \<and> length M = length params
     \<and> (\<forall>r<length params. length (M ! r) = length params)
     \<and> M ! i ! j = (let psi = f params; J = jacfwd B f params in
         vdot (jac_column J j) (jac_column J i) - vdot (jac_column J j) psi * vdot psi (jac_column J i))"
  using assms
  by (simp add: qng_fim_def qng_ij_def Let_def cast_def vmap_argnum0_def vmap_argnum1_def transpose_t_def jac_column_def)

lemma qng_post_process_entry:
  assumes "length M = n" "\<forall>r<n. length (M ! r) = n" "i < n" "j < n"
  shows "qng_post_process M eps ! i ! j = complex_of_real (Re (M ! i ! j) + (if i = j then eps else 0))"
  using assms
  by (simp add: qng_post_process_def real_t_def add_m_def scale_m_def eye_def)

text \<open>
  The inner product \<open>_vdot\<close> is the Hermitian one: the sum of the products of the
  conjugated entries of the bra with the entries of the ket.
\<close>

lemma vdot_sum:
  assumes "length a = length b"
  shows "vdot a b = (\<Sum>k<length a. cnj (a ! k) * b ! k)"
  using assms by (auto simp: vdot_def conj_def tensordot1_sum intro!: sum.cong)

lemma vdot_columns:
  "vdot (jac_column J i) (jac_column J j) = (\<Sum>k<length J. cnj (J ! k ! i) * J ! k ! j)"
  by (simp add: vdot_sum jac_column_def)

lemma vdot_column_state:
  assumes "length J = length psi"
  shows "vdot (jac_column J i) psi = (\<Sum>k<length psi. cnj (J ! k ! i) * psi ! k)"
    and "vdot psi (jac_column J j) = (\<Sum>k<length psi. cnj (psi ! k) * J ! k ! j)"
  using assms by (simp_all add: vdot_sum jac_column_def)

text \<open>
  C1. With the default options (kernel \<open>"qng"\<close>, postprocess \<open>"qng"\<close>, mode \<open>"fwd"\<close>) the
  wrapper of \<open>qng(f)\<close> returns a square matrix with one row for each parameter, and its
  entry \<open>(i, j)\<close> is the real part of
  \<open>\<langle>d_i psi | d_j psi\<rangle> - \<langle>d_i psi | psi\<rangle> \<langle>psi | d_j psi\<rangle>\<close> plus \<open>1e-4\<close> on the diagonal. Here
  \<open>psi\<close> is \<open>f\<close> at the cast parameters, \<open>d_i psi\<close> is column \<open>i\<close> of the Jacobian \<open>J\<close> of \<open>f\<close>
  there (one row for each component of \<open>psi\<close>), and \<open>\<langle>a | b\<rangle>\<close> is the sum over \<open>k\<close> of the
  conjugate of \<open>a_k\<close> times \<open>b_k\<close>.
\<close>

theorem qng_default_fisher_matrix:
  assumes "i < length params" "j < length params"
    and "length (jacfwd B f (cast params)) = length (f (cast params))"
  shows "\<exists>M. qng_wrapper B f ''qng'' (PStr ''qng'') ''fwd'' params = Inr M
     \<and> length M = length params \<and> length (M ! i) = length params
     \<and> M ! i ! j =
         (let psi = f (cast params); J = jacfwd B f (cast params); n = length psi;
              didj = (\<Sum>k<n. cnj (J ! k ! i) * J ! k ! j);
              dipsi = (\<Sum>k<n. cnj (J ! k ! i) * psi ! k);
              psidj = (\<Sum>k<n. cnj (psi ! k) * J ! k ! j)
          in complex_of_real (Re (didj - dipsi * psidj) + (if i = j then 1 / 10000 else 0)))"
proof -
  obtain M where M: "qng_fim B f ''qng'' ''fwd'' params = Inr M" "length M = length params"
      "\<forall>r<length params. length (M ! r) = length params"
      "M ! i ! j = (let psi = f params; J = jacfwd B f params in
         vdot (jac_column J j) (jac_column J i) - vdot (jac_column J j) psi * vdot psi (jac_column J i))"
    using qng_fim_entry [OF assms(1,2), of B f] by blast
  let ?J = "jacfwd B f params"
  let ?psi = "f params"
  have len: "length ?J = length ?psi"
    using assms(3) by (simp add: cast_def)
  have sym: "Re (vdot (jac_column ?J j) (jac_column ?J i)
               - vdot (jac_column ?J j) ?psi * vdot ?psi (jac_column ?J i))
           = Re (vdot (jac_column ?J i) (jac_column ?J j)
               - vdot (jac_column ?J i) ?psi * vdot ?psi (jac_column ?J j))"
    by (subst vdot_cnj [of "jac_column ?J j" "jac_column ?J i"],
        subst vdot_cnj [of "jac_column ?J j" ?psi],
        subst vdot_cnj [of ?psi "jac_column ?J i"]) (simp add: mult.commute)
  have w: "qng_wrapper B f ''qng'' (PStr ''qng'') ''fwd'' params = Inr (qng_post_process M default_eps)"
    by (simp add: qng_wrapper_def M(1) select_post_process_def)
  have lens: "length (qng_post_process M default_eps) = length params"
    "length (qng_post_process M default_eps ! i) = length params"
    using M(2,3) assms(1,2)
    by (simp_all add: qng_post_process_def real_t_def add_m_def scale_m_def eye_def)
  have "qng_post_process M default_eps ! i ! j
      = complex_of_real (Re (M ! i ! j) + (if i = j then default_eps else 0))"
    using qng_post_process_entry [OF M(2) M(3) assms(1,2)] .
  with sym M(4) w lens show ?thesis
    by (simp add: Let_def cast_def vdot_columns vdot_column_state [OF len] len default_eps_def)
qed

theorem qng_default_fisher_matrix_witness:
  "\<exists>M. qng_wrapper (const_backend [[\<i>, 1], [2, 3]]) demo_state ''qng'' (PStr ''qng'') ''fwd'' [1, 1]
        = Inr M
     \<and> length M = 2 \<and> length (M ! 0) = 2
     \<and> M ! 0 ! 1 = - 169 \<and> M ! 0 ! 0 = complex_of_real (- 117 + 1 / 10000)"
  using qng_default_fisher_matrix [of 0 "[1, 1]" 1 "const_backend [[\<i>, 1], [2, 3]]" demo_state]
    qng_default_fisher_matrix [of 0 "[1, 1]" 0 "const_backend [[\<i>, 1], [2, 3]]" demo_state]
  by (auto simp add: Let_def cast_def const_backend_def demo_state_def lessThan_Suc numeral_2_eq_2)

subsection \<open>\<open>hamiltonian_evol\<close> on a complex Hermitian matrix\<close>

lemma u_demo_eigendecomposition:
  "mat_mul (mat_mul u_demo (diag [0, 1])) (dagger u_demo) = h_demo
   \<and> mat_mul (dagger u_demo) u_demo = eye 2"
  by (simp add: mat_mul_def diag_def dagger_def u_demo_def h_demo_def transpose_t_def
      conj_def tensordot1_def eye_def upt_rec numeral_2_eq_2)

text \<open>
  For a real matrix of eigenvectors the transpose is the adjoint and the conjugate
  changes nothing: there the code computes the evolution of the specification.
\<close>

lemma conj_real_matrix:
  assumes "\<forall>r\<in>set u. \<forall>z\<in>set r. Im z = 0"
  shows "map conj u = u"
proof -
  have "cnj z = z" if "Im z = 0" for z
    using that by (simp add: complex_eq_iff)
  with assms show ?thesis
    by (simp add: conj_def map_idI)
qed

lemma dagger_real_matrix:
  assumes "\<forall>r\<in>set u. \<forall>z\<in>set r. Im z = 0" "\<forall>r\<in>set u. length r = length u"
  shows "dagger u = transpose_t (length u) u"
proof -
  have "cnj (r ! c) = r ! c" if "r \<in> set u" "c < length u" for r c
  proof -
    from that assms(2) have "r ! c \<in> set r" by simp
    with assms(1) that(1) have "Im (r ! c) = 0" by blast
    then show ?thesis by (simp add: complex_eq_iff)
  qed
  then show ?thesis
    by (simp add: dagger_def transpose_t_def conj_def)
qed

lemma hamiltonian_evol_real_eigenvectors:
  assumes "eigh h = (es, u)" "\<forall>r\<in>set u. \<forall>z\<in>set r. Im z = 0" "\<forall>r\<in>set u. length r = length u"
    "tlist \<noteq> []"
  shows "hamiltonian_evol eigh tlist h psi0 None
           = Inr (Computed (map (\<lambda>t. imaginary_time_state es u t psi0) tlist))"
  using assms(1,4) conj_real_matrix [OF assms(2)] dagger_real_matrix [OF assms(2,3)]
  by (simp add: hamiltonian_evol_def stack_rows_def evol_def imaginary_time_state_def Let_def)

text \<open>
  C5. The claim is that \<open>hamiltonian_evol\<close> returns, for each time, the normalized state
  \<open>exp(-t h) psi0\<close>. At the Hermitian matrix \<open>h_demo\<close> (eigenvalues 0 and 1, eigenvectors
  the columns of the unitary \<open>u_demo\<close>), the state \<open>(1, 0)\<close> and the time \<open>ln 2\<close> the code
  returns the complex conjugate of that state: it multiplies by the transpose of \<open>u\<close>
  where the adjoint is due, and by the conjugate of \<open>u\<close> where \<open>u\<close> is due.
\<close>

theorem hamiltonian_evol_conjugates:
  "hamiltonian_evol eigh_demo [ln 2] h_demo [1, 0] None
     = Inr (Computed [map (\<lambda>z. z / complex_of_real (sqrt (13 / 25))) [17 / 25, - (6 * \<i> / 25)]])
   \<and> imaginary_time_state [0, 1] u_demo (ln 2) [1, 0]
     = map (\<lambda>z. z / complex_of_real (sqrt (13 / 25))) [17 / 25, 6 * \<i> / 25]
   \<and> hamiltonian_evol eigh_demo [ln 2] h_demo [1, 0] None
     \<noteq> Inr (Computed [imaginary_time_state [0, 1] u_demo (ln 2) [1, 0]])"
proof -
  have code: "hamiltonian_evol eigh_demo [ln 2] h_demo [1, 0] None
     = Inr (Computed [map (\<lambda>z. z / complex_of_real (sqrt (13 / 25))) [17 / 25, - (6 * \<i> / 25)]])"
    by (simp add: hamiltonian_evol_def eigh_demo_def u_demo_def stack_rows_def evol_def
        matvec_def transpose_t_def conj_def tensordot1_def upt_rec numeral_2_eq_2 Let_def
        norm_t_def exp_minus)
  have spec: "imaginary_time_state [0, 1] u_demo (ln 2) [1, 0]
     = map (\<lambda>z. z / complex_of_real (sqrt (13 / 25))) [17 / 25, 6 * \<i> / 25]"
    by (simp add: imaginary_time_state_def u_demo_def dagger_def matvec_def transpose_t_def
        conj_def tensordot1_def upt_rec numeral_2_eq_2 Let_def norm_t_def exp_minus)
  have "sqrt (13 / 25) \<noteq> 0" by simp
  then have "- (6 * \<i> / 25) / complex_of_real (sqrt (13 / 25))
      \<noteq> 6 * \<i> / 25 / complex_of_real (sqrt (13 / 25))"
    by (simp add: complex_eq_iff)
  with code spec show ?thesis by simp
qed

subsection \<open>\<open>adaptive_vmap\<close> against the plain vectorized map\<close>

lemma prod_list_int: "prod_list (map int ns) = int (prod_list ns)"
  by (induction ns) simp_all

lemma reshape_to_shape:
  assumes "prod_list ns = length (data t)"
  shows "reshape t (map int ns) = Inr (Tensor ns (data t))"
proof -
  have f1: "filter (\<lambda>d. d \<noteq> - 1) (map int ns) = map int ns"
    by (induction ns) simp_all
  have f2: "filter (\<lambda>d. d = - 1) (map int ns) = []"
    by (induction ns) simp_all
  have f3: "\<not> list_ex (\<lambda>d. d < - 1) (map int ns)"
    by (induction ns) simp_all
  have f4: "map nat (map int ns) = ns"
    by (induction ns) simp_all
  show ?thesis
    unfolding reshape_def Let_def f1 f2 prod_list_int
    using f3 f4 assms by simp
qed

lemma reshape_infer:
  assumes "k \<noteq> 0" "length (data t) = k * m"
  shows "reshape t [int k, - 1] = Inr (Tensor [k, m] (data t))"
  using assms by (simp add: reshape_def Let_def)

lemma stack_same_shape:
  assumes "ts \<noteq> []" "\<forall>t\<in>set ts. shape t = os"
  shows "stack ts = Inr (Tensor (length ts # os) (concat (map data ts)))"
proof (cases ts)
  case Nil
  with assms(1) show ?thesis by simp
next
  case (Cons t ts')
  with assms(2) have "list_all (\<lambda>s. shape s = shape t) ts" "shape t = os"
    by (auto simp: list_all_iff)
  with Cons show ?thesis
    by (simp add: stack_def)
qed

lemma vmap_single:
  assumes "1 \<le> m" "\<forall>k<m. shape (f [row (Tensor (m # sh) dd) k]) = os"
  shows "vmap f [0] [Tensor (m # sh) dd]
           = Inr (Tensor (m # os) (concat (map (\<lambda>k. data (f [row (Tensor (m # sh) dd) k])) [0..<m])))"
proof -
  let ?ts = "map (\<lambda>k. f [row (Tensor (m # sh) dd) k]) [0..<m]"
  have ne: "?ts \<noteq> []" using assms(1) by simp
  have sh: "\<forall>t\<in>set ?ts. shape t = os" using assms(2) by auto
  have "vmap f [0] [Tensor (m # sh) dd] = stack ?ts"
    by (simp add: vmap_def enumerate_simps)
  also have "\<dots> = Inr (Tensor (length ?ts # os) (concat (map data ?ts)))"
    using stack_same_shape [OF ne sh] .
  finally show ?thesis by (simp add: comp_def)
qed

lemma sequence_e_Inr: "sequence_e (map (\<lambda>x. Inr (g x)) xs) = Inr (map g xs)"
  by (induction xs) (simp_all add: bind_e_def)

lemma concat_chunks:
  "concat (map (\<lambda>i. concat (map (\<lambda>k. G (i * c + k)) [0..<c])) [0..<s])
     = concat (map G [0..<s * c])"
proof (induction s)
  case 0
  show ?case by simp
next
  case (Suc s)
  have "[0..<Suc s * c] = [0..<s * c] @ [s * c..<s * c + c]"
    by (metis add.commute le_add1 mult_Suc upt_add_eq_append zero_le add.left_neutral)
  moreover have "map G [s * c..<s * c + c] = map (\<lambda>k. G (s * c + k)) [0..<c]"
    by (simp add: map_add_upt [symmetric] add.commute)
  ultimately show ?case using Suc by simp
qed

lemma take_row_of_chunk:
  assumes "k < c"
  shows "take rs (drop (k * rs) (take (c * rs) xs)) = take rs (drop (k * rs) xs)"
proof -
  from assms have "Suc k \<le> c" by simp
  then have "Suc k * rs \<le> c * rs" by (rule mult_le_mono1)
  then have "rs \<le> c * rs - k * rs" by simp
  then show ?thesis
    by (simp add: drop_take min_def)
qed

lemma row_of_chunk:
  assumes "i < s" "k < c"
  shows "take rs (drop (k * rs) (take (c * rs) (drop (i * (c * rs)) (take (s * c * rs) d))))
         = take rs (drop ((i * c + k) * rs) d)"
proof -
  have "i * c + k < s * c"
  proof -
    from assms(1) have "Suc i * c \<le> s * c" by (intro mult_le_mono1) simp
    with assms(2) show ?thesis by simp
  qed
  then have "take rs (drop ((i * c + k) * rs) (take (s * c * rs) d))
      = take rs (drop ((i * c + k) * rs) d)"
    by (rule take_row_of_chunk)
  moreover have "take rs (drop (k * rs) (take (c * rs) (drop (i * (c * rs)) (take (s * c * rs) d))))
      = take rs (drop (k * rs) (drop (i * (c * rs)) (take (s * c * rs) d)))"
    using assms(2) by (rule take_row_of_chunk)
  ultimately show ?thesis
    by (simp add: algebra_simps)
qed

lemma length_concat_const:
  assumes "\<forall>k<b. length (G k) = m"
  shows "length (concat (map G [a..<b])) = (b - a) * m"
proof -
  have "map (\<lambda>k. length (G k)) [a..<b] = map (\<lambda>k. m) [a..<b]"
    using assms by simp
  then have "sum_list (map (\<lambda>k. length (G k)) [a..<b]) = sum_list (map (\<lambda>k. m) [a..<b])"
    by (rule arg_cong)
  then show ?thesis
    by (simp add: length_concat comp_def sum_list_triv)
qed

lemma split_arg_single:
  assumes "length d = n * prod_list sh" "c \<noteq> 0"
  shows "split_arg [0] c (n div c) (n mod c) (0, Tensor (n # sh) d)
     = Inr (Tensor (n div c # c # sh) (take (n div c * c * prod_list sh) d),
            if n mod c \<noteq> 0 then Tensor (n mod c # sh) (drop (n div c * c * prod_list sh) d)
            else Tensor (n # sh) d)"
proof -
  let ?rs = "prod_list sh"
  have n: "n - n mod c = n div c * c"
    by (metis minus_mod_eq_div_mult)
  have sh: "[int (n div c), int c] @ map int sh = map int (n div c # c # sh)"
    by simp
  show ?thesis
  proof (cases "n mod c = 0")
    case True
    then have eq: "n div c * c = n" by auto
    have "reshape (Tensor (n # sh) d) (map int (n div c # c # sh))
        = Inr (Tensor (n div c # c # sh) (data (Tensor (n # sh) d)))"
      by (rule reshape_to_shape) (simp add: assms(1) eq mult.assoc [symmetric])
    with True show ?thesis
      unfolding split_arg_def Let_def sh
      by (simp add: bind_e_def eq assms(1))
  next
    case False
    have le: "n mod c \<le> n" by simp
    have "reshape (Tensor (n div c * c # sh) (take (n div c * c * ?rs) d)) (map int (n div c # c # sh))
        = Inr (Tensor (n div c # c # sh) (data (Tensor (n div c * c # sh) (take (n div c * c * ?rs) d))))"
    proof (rule reshape_to_shape)
      have "n div c * c \<le> n" by (metis n diff_le_self)
      then have "n div c * c * ?rs \<le> n * ?rs" by (rule mult_le_mono1)
      then show "prod_list (n div c # c # sh)
          = length (data (Tensor (n div c * c # sh) (take (n div c * c * ?rs) d)))"
        by (simp add: assms(1) mult.assoc)
    qed
    with False show ?thesis
      unfolding split_arg_def Let_def sh
      by (simp add: bind_e_def slice_last_def slice_init_def n min_absorb1)
  qed
qed

lemma split_args_single:
  assumes "length d = n * prod_list sh" "c \<noteq> 0"
  shows "split_args [0] c (n div c) (n mod c) [Tensor (n # sh) d]
     = Inr [(Tensor (n div c # c # sh) (take (n div c * c * prod_list sh) d),
             if n mod c \<noteq> 0 then Tensor (n mod c # sh) (drop (n div c * c * prod_list sh) d)
             else Tensor (n # sh) d)]"
  by (simp add: split_args_def split_arg_single [OF assms] bind_e_def)

lemma chunk_results_single:
  fixes f :: "'a tensor list \<Rightarrow> 'b tensor"
  assumes c: "1 \<le> c"
    and out: "\<forall>k<n. shape (f [row (Tensor (n # sh) d) k]) = os"
  shows "chunk_results f [0] (n div c)
           [Tensor (n div c # c # sh) (take (n div c * c * prod_list sh) d)]
         = Inr (map (\<lambda>i. Tensor (c # os)
                   (concat (map (\<lambda>k. data (f [row (Tensor (n # sh) d) (i * c + k)])) [0..<c])))
                 [0..<n div c])"
proof -
  let ?rs = "prod_list sh"
  let ?s1 = "n div c"
  define A where "A = Tensor (?s1 # c # sh) (take (?s1 * c * ?rs) d)"
  define R where "R i = Tensor (c # os)
      (concat (map (\<lambda>k. data (f [row (Tensor (n # sh) d) (i * c + k)])) [0..<c]))" for i
  have lt: "i * c + k < n" if "i < ?s1" "k < c" for i k
  proof -
    from that(1) have "Suc i * c \<le> ?s1 * c" by (intro mult_le_mono1) simp
    with that(2) have "i * c + k < ?s1 * c" by simp
    also have "\<dots> \<le> n" by simp
    finally show ?thesis .
  qed
  have rowx: "row (Tensor (n # sh) d) k = Tensor sh (take ?rs (drop (k * ?rs) d))" for k
    by (simp add: row_def)
  have chunk: "bind_e (sequence_e (map (\<lambda>(j, a). if j \<in> set [0] then index0 a i else Inr a)
                   (enumerate 0 [A]))) (vmap f [0]) = Inr (R i)"
    if "i < ?s1" for i
  proof -
    let ?ch = "take (c * ?rs) (drop (i * (c * ?rs)) (take (?s1 * c * ?rs) d))"
    have rowA: "row A i = Tensor (c # sh) ?ch"
      by (simp add: row_def A_def)
    have rk: "row (Tensor (c # sh) ?ch) k = row (Tensor (n # sh) d) (i * c + k)"
      if "k < c" for k
      using row_of_chunk [OF \<open>i < ?s1\<close> that, of ?rs d] by (simp add: row_def)
    have "vmap f [0] [Tensor (c # sh) ?ch]
        = Inr (Tensor (c # os) (concat (map (\<lambda>k. data (f [row (Tensor (c # sh) ?ch) k])) [0..<c])))"
    proof (rule vmap_single [OF c], intro allI impI)
      fix k assume "k < c"
      with rk [OF this] out lt [OF \<open>i < ?s1\<close> this]
      show "shape (f [row (Tensor (c # sh) ?ch) k]) = os" by simp
    qed
    also have "map (\<lambda>k. data (f [row (Tensor (c # sh) ?ch) k])) [0..<c]
        = map (\<lambda>k. data (f [row (Tensor (n # sh) d) (i * c + k)])) [0..<c]"
      using rk by simp
    finally have v: "vmap f [0] [Tensor (c # sh) ?ch] = Inr (R i)"
      by (simp add: R_def)
    have shA: "shape A = ?s1 # c # sh" by (simp add: A_def)
    have idx: "index0 A i = Inr (Tensor (c # sh) ?ch)"
      using that by (simp add: index0_def shA rowA)
    show ?thesis
      by (simp add: idx v bind_e_def)
  qed
  have "map (\<lambda>i. bind_e (sequence_e (map (\<lambda>(j, a).
                 if j \<in> set [0] then index0 a i else Inr a) (enumerate 0 [A]))) (vmap f [0]))
               [0..<?s1] = map (\<lambda>i. Inr (R i)) [0..<?s1]"
    using chunk by simp
  then have "chunk_results f [0] ?s1 [A] = Inr (map R [0..<?s1])"
    unfolding chunk_results_def by (simp only: sequence_e_Inr)
  then show ?thesis
    unfolding A_def R_def .
qed

lemma adaptive_vmap_wrapper_single:
  fixes f :: "'a tensor list \<Rightarrow> 'b tensor"
  assumes wf: "length d = n * prod_list sh"
    and c: "1 \<le> c" "c \<le> n"
    and out: "\<forall>k<n. shape (f [row (Tensor (n # sh) d) k]) = os
                  \<and> length (data (f [row (Tensor (n # sh) d) k])) = prod_list os"
    and rank: "length os \<le> 1"
  shows "adaptive_vmap_wrapper f [0] c [Tensor (n # sh) d]
           = Inr (Tensor (n # os) (concat (map (\<lambda>k. data (f [row (Tensor (n # sh) d) k])) [0..<n])))"
proof -
  let ?rs = "prod_list sh"
  let ?s1 = "n div c"
  let ?s2 = "n mod c"
  define G where "G k = data (f [row (Tensor (n # sh) d) k])" for k
  define A where "A = Tensor (?s1 # c # sh) (take (?s1 * c * ?rs) d)"
  define R where "R i = Tensor (c # os) (concat (map (\<lambda>k. G (i * c + k)) [0..<c]))" for i
  define D1 where "D1 = concat (map G [0..<?s1 * c])"
  have c0: "c \<noteq> 0" using c(1) by simp
  have s1: "1 \<le> ?s1" using c by (simp add: div_greater_zero_iff Suc_le_eq)
  have n: "?s1 * c + ?s2 = n" by simp
  have lt: "i * c + k < n" if "i < ?s1" "k < c" for i k
  proof -
    from that(1) have "Suc i * c \<le> ?s1 * c" by (intro mult_le_mono1) simp
    with that(2) have "i * c + k < ?s1 * c" by simp
    also have "\<dots> \<le> n" by (metis n le_add1)
    finally show ?thesis .
  qed
  have rowx: "row (Tensor (n # sh) d) k = Tensor sh (take ?rs (drop (k * ?rs) d))" for k
    by (simp add: row_def)
  have Gshape: "shape (f [Tensor sh (take ?rs (drop (k * ?rs) d))]) = os"
    and Glen: "length (G k) = prod_list os" if "k < n" for k
    using out that by (simp_all add: rowx G_def)
  have Gdata: "data (f [Tensor sh (take ?rs (drop (k * ?rs) d))]) = G k" for k
    by (simp add: G_def rowx)
  \<comment> \<open>the split of the argument\<close>
  have split: "split_args [0] c ?s1 ?s2 [Tensor (n # sh) d]
      = Inr [(A, if ?s2 \<noteq> 0 then Tensor (?s2 # sh) (drop (?s1 * c * ?rs) d) else Tensor (n # sh) d)]"
    by (simp add: split_args_single [OF wf c0] A_def)
  \<comment> \<open>the chunks\<close>
  have chunks: "chunk_results f [0] ?s1 [A] = Inr (map R [0..<?s1])"
    using chunk_results_single [OF c(1), of n f sh d os] out
    by (simp add: A_def R_def G_def [abs_def])
  \<comment> \<open>the stack of the chunks and its reshape\<close>
  have stk: "stack (map R [0..<?s1]) = Inr (Tensor (?s1 # c # os) D1)"
  proof -
    have "map R [0..<?s1] \<noteq> []" using s1 by simp
    moreover have "\<forall>t\<in>set (map R [0..<?s1]). shape t = c # os" by (simp add: R_def)
    ultimately have "stack (map R [0..<?s1])
        = Inr (Tensor (length (map R [0..<?s1]) # c # os) (concat (map data (map R [0..<?s1]))))"
      by (rule stack_same_shape)
    moreover have "concat (map data (map R [0..<?s1])) = D1"
      using concat_chunks [of G c ?s1] by (simp add: R_def comp_def D1_def)
    ultimately show ?thesis by simp
  qed
  have lenD1: "length D1 = ?s1 * c * prod_list os"
  proof -
    have "\<forall>k<?s1 * c. length (G k) = prod_list os"
      using Glen n by (metis add.commute less_le_trans le_add2)
    from length_concat_const [OF this, of 0] show ?thesis by (simp add: D1_def)
  qed
  have s1c: "?s1 * c \<noteq> 0" using s1 c0 by simp
  have merge: "merge_chunks (map R [0..<?s1]) = Inr (Tensor (?s1 * c # os) D1)"
  proof (cases os)
    case Nil
    have "reshape (Tensor [?s1, c] D1) (map int [?s1 * c]) = Inr (Tensor [?s1 * c] (data (Tensor [?s1, c] D1)))"
      by (rule reshape_to_shape) (simp add: lenD1 Nil)
    with Nil show ?thesis by (simp add: merge_chunks_def stk bind_e_def)
  next
    case (Cons m os')
    with rank have os: "os = [m]" by simp
    have "reshape (Tensor [?s1, c, m] D1) [int (?s1 * c), - 1] = Inr (Tensor [?s1 * c, m] (data (Tensor [?s1, c, m] D1)))"
      by (rule reshape_infer [OF s1c]) (simp add: lenD1 os)
    with os show ?thesis by (simp add: merge_chunks_def stk bind_e_def)
  qed
  \<comment> \<open>the rest\<close>
  have rest: "vmap f [0] [Tensor (?s2 # sh) (drop (?s1 * c * ?rs) d)]
      = Inr (Tensor (?s2 # os) (concat (map G [?s1 * c..<n])))" if "?s2 \<noteq> 0"
  proof -
    let ?dd = "drop (?s1 * c * ?rs) d"
    have lt2: "?s1 * c + k < n" if "k < ?s2" for k
      using that n by linarith
    have rk: "row (Tensor (?s2 # sh) ?dd) k = Tensor sh (take ?rs (drop ((?s1 * c + k) * ?rs) d))" for k
      by (simp add: row_def algebra_simps)
    have "vmap f [0] [Tensor (?s2 # sh) ?dd]
        = Inr (Tensor (?s2 # os) (concat (map (\<lambda>k. data (f [row (Tensor (?s2 # sh) ?dd) k])) [0..<?s2])))"
    proof (rule vmap_single, goal_cases)
      case 1
      from that show ?case by simp
    next
      case 2
      show ?case using rk Gshape lt2 by simp
    qed
    also have "map (\<lambda>k. data (f [row (Tensor (?s2 # sh) ?dd) k])) [0..<?s2]
        = map (\<lambda>k. G (?s1 * c + k)) [0..<?s2]"
      using rk Gdata by simp
    also have "\<dots> = map G [?s1 * c..<n]"
    proof -
      have "[?s1 * c..<n] = map (\<lambda>k. k + ?s1 * c) [0..<?s2]"
        by (simp only: map_add_upt) (simp add: add.commute)
      then show ?thesis by (simp add: comp_def add.commute)
    qed
    finally show ?thesis .
  qed
  have whole: "concat (map G [0..<n]) = D1 @ concat (map G [?s1 * c..<n])"
  proof -
    have "[0..<n] = [0..<?s1 * c] @ [?s1 * c..<n]"
      by (metis n le_add1 upt_add_eq_append zero_le add.left_neutral)
    then show ?thesis by (simp add: D1_def)
  qed
  have main: "adaptive_vmap_wrapper f [0] c [Tensor (n # sh) d]
      = (if ?s2 \<noteq> 0
         then bind_e (vmap f [0] [Tensor (?s2 # sh) (drop (?s1 * c * ?rs) d)])
                (\<lambda>rest_r. concat_t [Tensor (?s1 * c # os) D1, rest_r])
         else Inr (Tensor (?s1 * c # os) D1))"
    unfolding adaptive_vmap_wrapper_def
    by (simp add: c0 split chunks merge bind_e_def Let_def)
  have "adaptive_vmap_wrapper f [0] c [Tensor (n # sh) d] = Inr (Tensor (n # os) (concat (map G [0..<n])))"
  proof (cases "?s2 = 0")
    case True
    then have "?s1 * c = n" by auto
    with True whole show ?thesis
      by (simp add: main)
  next
    case False
    have "concat_t [Tensor (?s1 * c # os) D1, Tensor (?s2 # os) (concat (map G [?s1 * c..<n]))]
        = Inr (Tensor (n # os) (concat (map G [0..<n])))"
      by (simp add: concat_t_def whole)
    with False show ?thesis
      by (simp add: main rest bind_e_def)
  qed
  then show ?thesis unfolding G_def .
qed

text \<open>
  Where the chunked map does agree with the plain one: on a well-formed batch with at
  least one full chunk, for a function whose results are scalars or vectors of one
  shape. The first \<open>(n div c) * c\<close> rows are reshaped to \<open>n div c\<close> chunks of \<open>c\<close> rows,
  chunk \<open>i\<close> gives the results on the rows \<open>i * c\<close> to \<open>i * c + c - 1\<close>, and the last
  \<open>n mod c\<close> rows are kept for one more call.
\<close>

lemma adaptive_vmap_full_chunks:
  fixes f :: "'a tensor list \<Rightarrow> 'b tensor"
  assumes "wf_tensor x" "shape x = n # sh" "1 \<le> c" "c \<le> n"
    and "\<forall>k<n. shape (f [row x k]) = os \<and> wf_tensor (f [row x k])"
    and "length os \<le> 1"
  shows "adaptive_vmap f vectorized_argnums None = Callable (vmap f vectorized_argnums)
     \<and> (\<exists>w. adaptive_vmap f [0] (Some c) = Callable w
          \<and> w [x] = vmap f [0] [x]
          \<and> w [x] = Inr (Tensor (n # os) (concat (map (\<lambda>k. data (f [row x k])) [0..<n]))))
     \<and> (\<exists>chunks rest.
          split_args [0] c (n div c) (n mod c) [x] = Inr [(chunks, rest)]
          \<and> shape chunks = n div c # c # sh
          \<and> data chunks = take (n div c * c * prod_list sh) (data x)
          \<and> (if n mod c \<noteq> 0
              then rest = Tensor (n mod c # sh) (drop (n div c * c * prod_list sh) (data x))
              else rest = x)
          \<and> chunk_results f [0] (n div c) [chunks]
              = Inr (map (\<lambda>i. Tensor (c # os)
                           (concat (map (\<lambda>k. data (f [row x (i * c + k)])) [0..<c])))
                      [0..<n div c]))"
proof -
  obtain d where x: "x = Tensor (n # sh) d"
    using assms(2) by (cases x) simp
  have wf: "length d = n * prod_list sh"
    using assms(1) by (simp add: wf_tensor_def x)
  have out: "\<forall>k<n. shape (f [row (Tensor (n # sh) d) k]) = os
                  \<and> length (data (f [row (Tensor (n # sh) d) k])) = prod_list os"
    using assms(5) by (simp add: wf_tensor_def x)
  have w: "adaptive_vmap_wrapper f [0] c [x]
      = Inr (Tensor (n # os) (concat (map (\<lambda>k. data (f [row x k])) [0..<n])))"
    unfolding x by (rule adaptive_vmap_wrapper_single [OF wf assms(3,4) out assms(6)])
  have "1 \<le> n" using assms(3,4) by simp
  then have v: "vmap f [0] [x]
      = Inr (Tensor (n # os) (concat (map (\<lambda>k. data (f [row x k])) [0..<n])))"
    unfolding x by (rule vmap_single) (use out in simp)
  have c0: "c \<noteq> 0" using assms(3) by simp
  have shapes: "\<forall>k<n. shape (f [row (Tensor (n # sh) d) k]) = os"
    using out by simp
  have "\<exists>chunks rest.
          split_args [0] c (n div c) (n mod c) [x] = Inr [(chunks, rest)]
          \<and> shape chunks = n div c # c # sh
          \<and> data chunks = take (n div c * c * prod_list sh) (data x)
          \<and> (if n mod c \<noteq> 0
              then rest = Tensor (n mod c # sh) (drop (n div c * c * prod_list sh) (data x))
              else rest = x)
          \<and> chunk_results f [0] (n div c) [chunks]
              = Inr (map (\<lambda>i. Tensor (c # os)
                           (concat (map (\<lambda>k. data (f [row x (i * c + k)])) [0..<c])))
                      [0..<n div c])"
    unfolding x
    using split_args_single [OF wf c0] chunk_results_single [OF assms(3) shapes]
    by simp
  then show ?thesis
    by (simp add: adaptive_vmap_def w v)
qed

lemma adaptive_vmap_full_chunks_example:
  "\<exists>w. adaptive_vmap scalar_id [0] (Some 2) = Callable w
      \<and> w [Tensor [5] [1, 2, 3, 4, 5 :: int]] = vmap scalar_id [0] [Tensor [5] [1, 2, 3, 4, 5]]
      \<and> w [Tensor [5] [1, 2, 3, 4, 5 :: int]] = Inr (Tensor [5] [1, 2, 3, 4, 5])"
proof -
  let ?x = "Tensor [5] [1, 2, 3, 4, 5 :: int]"
  have rows: "row ?x k = Tensor [] (take 1 (drop k [1, 2, 3, 4, 5]))" for k
    by (simp add: row_def)
  have 1: "wf_tensor ?x" by (simp add: wf_tensor_def)
  have 2: "shape ?x = 5 # []" by simp
  have 3: "\<forall>k<5. shape (scalar_id [row ?x k]) = [] \<and> wf_tensor (scalar_id [row ?x k])"
    by (simp add: rows scalar_id_def wf_tensor_def)
  have 4: "concat (map (\<lambda>k. data (scalar_id [row ?x k])) [0..<5]) = [1, 2, 3, 4, 5]"
    by (simp add: rows scalar_id_def upt_rec)
  show ?thesis
    using adaptive_vmap_full_chunks [OF 1 2 _ _ 3, of 2 "[0]"] 4 by simp
qed

text \<open>
  A function whose result is a matrix: the reshape to \<open>[s1 * chunk_size, -1]\<close> merges the
  axes of the result into one, so the chunked map returns the shape \<open>[2, 1]\<close> where the
  plain map returns \<open>[2, 1, 1]\<close>.
\<close>

lemma adaptive_vmap_merges_result_axes:
  "adaptive_vmap_wrapper to_matrix [0] 1 [Tensor [2] [5 :: int, 6]] = Inr (Tensor [2, 1] [5, 6])
   \<and> vmap to_matrix [0] [Tensor [2] [5 :: int, 6]] = Inr (Tensor [2, 1, 1] [5, 6])"
proof -
  have v2: "vmap to_matrix [0] [Tensor [2] [5 :: int, 6]] = Inr (Tensor [2, 1, 1] [5, 6])"
    by (simp add: vmap_def stack_def row_def to_matrix_def upt_rec numeral_2_eq_2)
  have a2: "adaptive_vmap_wrapper to_matrix [0] 1 [Tensor [2] [5 :: int, 6]] = Inr (Tensor [2, 1] [5, 6])"
    by (simp add: adaptive_vmap_wrapper_def split_args_def split_arg_def reshape_def
        chunk_results_def merge_chunks_def index0_def vmap_def stack_def row_def to_matrix_def
        bind_e_def Let_def upt_rec numeral_2_eq_2)
  from v2 a2 show ?thesis by blast
qed

lemma split_args_small_batch:
  assumes "0 < n" "n < c"
  shows "split_args [0] c 0 n [Tensor (n # sh) d]
           = Inr [(Tensor (0 # c # sh) [], Tensor (n # sh) d)]"
proof -
  have r: "reshape (Tensor (0 # sh) []) (map int (0 # c # sh))
      = Inr (Tensor (0 # c # sh) (data (Tensor (0 # sh) ([] :: 'a list))))"
    by (rule reshape_to_shape) simp
  show ?thesis
    using assms r
    by (simp add: split_args_def split_arg_def slice_last_def slice_init_def bind_e_def)
qed

text \<open>
  C3. The claim is that the wrapper returned by \<open>adaptive_vmap(f, chunk_size=c)\<close> returns
  what the plain vectorized map returns, for every batch. On every batch of \<open>n\<close> rows with
  \<open>0 < n < c\<close>, whatever \<open>f\<close> is, there is no full chunk (\<open>s1 = 0\<close>): the list of the chunk
  results is empty and its stack raises, before the \<open>n\<close> rows of the rest are looked at.
  The plain vectorized map, which is also what \<open>adaptive_vmap\<close> returns for the chunk size
  \<open>None\<close>, returns the stack of the \<open>n\<close> results there.
\<close>

theorem adaptive_vmap_small_batch:
  fixes f :: "'a tensor list \<Rightarrow> 'b tensor"
  assumes "shape x = n # sh" "0 < n" "n < c"
    and "\<forall>k<n. shape (f [row x k]) = os"
  shows "\<exists>w. adaptive_vmap f [0] (Some c) = Callable w
           \<and> w [x] = Inl (ValueError ''need at least one array to stack'')
           \<and> adaptive_vmap f [0] None = Callable (vmap f [0])
           \<and> vmap f [0] [x]
               = Inr (Tensor (n # os) (concat (map (\<lambda>k. data (f [row x k])) [0..<n])))"
proof -
  obtain d where x: "x = Tensor (n # sh) d"
    using assms(1) by (cases x) simp
  have v: "vmap f [0] [x]
      = Inr (Tensor (n # os) (concat (map (\<lambda>k. data (f [row x k])) [0..<n])))"
    unfolding x by (rule vmap_single) (use assms(2,4) x in simp_all)
  have "adaptive_vmap_wrapper f [0] c [x] = Inl (ValueError ''need at least one array to stack'')"
    using assms(2,3)
    by (simp add: adaptive_vmap_wrapper_def x split_args_small_batch chunk_results_def
        merge_chunks_def stack_def bind_e_def)
  with v show ?thesis
    by (simp add: adaptive_vmap_def)
qed

theorem adaptive_vmap_small_batch_witness:
  "\<exists>w. adaptive_vmap scalar_id [0] (Some 2) = Callable w
      \<and> w [Tensor [1] [5 :: int]] = Inl (ValueError ''need at least one array to stack'')
      \<and> adaptive_vmap scalar_id [0] None
            = Callable (vmap (scalar_id :: int tensor list \<Rightarrow> int tensor) [0])
      \<and> vmap scalar_id [0] [Tensor [1] [5 :: int]] = Inr (Tensor [1] [5])"
  using adaptive_vmap_small_batch [of "Tensor [1] [5 :: int]" 1 "[]" 2 scalar_id "[]"]
  by (simp add: row_def scalar_id_def)

subsection \<open>Parameter shift on an argument other than the first\<close>

lemma shifted_args_scalar:
  "shifted_args s [Tensor [] [a], Tensor [] [b]] (Suc 0)
     = Inr ([Tensor [] [a], Tensor [1] [b + s]], [Tensor [] [a], Tensor [1] [b - s]])"
  by (simp add: shifted_args_def shape_tuple_def sizen_def eye_t_def cast_def reshape_def
      scale_t_def tile_rows_def add_t_def sub_t_def bind_e_def Let_def)

text \<open>
  C4. The claim is that the gradient in every argument listed in \<open>argnums\<close> is the
  parameter-shift quotient. For \<open>f(a, b) = a + b\<close> and \<open>argnums = 1\<close> the list \<open>vfs\<close> has
  the single entry for argument 1 at index 0, the code reads \<open>vfs[1]\<close>, and the call
  raises instead of returning the quotient \<open>((b + s0) - (b - s0)) / s1\<close>.
\<close>

theorem parameter_shift_grad_argnum_one:
  "\<exists>g. parameter_shift_grad sum_both [1] False default_shifts = Callable g
      \<and> g [Tensor [] [3], Tensor [] [4]] = Inl (IndexError ''list index out of range'')"
  by (simp add: parameter_shift_grad_def grad_f_def shifted_args_scalar shift_difference_def
      bind_e_def Let_def)

text \<open>
  The same read of \<open>vfs\<close> is in \<open>parameter_shift_grad_v2\<close> (line 337): with \<open>argnums = 1\<close> its
  function raises alike. With \<open>argnums = [1, 0]\<close> and arguments of the shapes \<open>[2]\<close> and
  \<open>[3]\<close> the function returned by \<open>parameter_shift_grad\<close> maps over the wrong argument, and
  the reshape to the shape of the argument refuses the two values it gets for the shape
  \<open>[3]\<close>.
\<close>

lemma vfs_read_by_argument_number:
  "(\<exists>g. parameter_shift_grad_v2 no_split sum_both [1] False None default_shifts = Callable g
      \<and> g [Tensor [] [3], Tensor [] [4]] = Inl (IndexError ''list index out of range''))
   \<and> (\<exists>g. parameter_shift_grad sum_both [1, 0] False (1, 2) = Callable g
      \<and> g [Tensor [2] [3, 5], Tensor [3] [4, 1, 1]] = Inl (ValueError ''reshape''))"
proof -
  have v2: "grad_f_v2 no_split sum_both [1] None default_shifts [Tensor [] [3], Tensor [] [4]]
      = Inl (IndexError ''list index out of range'')"
    by (simp add: grad_f_v2_def shifted_args_scalar shift_difference_def bind_e_def Let_def)
  have sh: "shifted_args 1 [Tensor [2] [3, 5], Tensor [3] [4, 1, 1]] (Suc 0)
      = Inr ([Tensor [2] [3, 5], Tensor [3, 3] [5, 1, 1, 4, 2, 1, 4, 1, 2]],
             [Tensor [2] [3, 5], Tensor [3, 3] [3, 1, 1, 4, 0, 1, 4, 1, 0]])"
    by (simp add: shifted_args_def shape_tuple_def sizen_def eye_t_def cast_def reshape_def
        scale_t_def tile_rows_def add_t_def sub_t_def bind_e_def Let_def upt_rec
        numeral_3_eq_3)
  have vm: "vmap sum_both [0] [Tensor [2] [3, 5], Tensor [3, 3] ds]
      = Inr (Tensor [2] [3 + sum_list ds, 5 + sum_list ds])" for ds
    by (simp add: vmap_def stack_def row_def sum_both_def upt_rec numeral_2_eq_2)
  have "grad_f sum_both [1, 0] (1, 2) [Tensor [2] [3, 5], Tensor [3] [4, 1, 1]]
      = Inl (ValueError ''reshape'')"
    by (simp add: grad_f_def sh shift_difference_def vm sub_t_def div_t_def reshape_def
        shape_tuple_def bind_e_def Let_def)
  with v2 show ?thesis
    by (simp add: parameter_shift_grad_v2_def parameter_shift_grad_def)
qed

text \<open>
  When the arguments have one shape the same read goes unnoticed: with \<open>argnums = [1, 0]\<close>
  each gradient is taken through the map over the other argument, and for the sum of
  all entries, whose parameter-shift quotient is 1 in every entry, the call returns 2 in
  every entry.
\<close>

lemma vfs_wrong_argument:
  "grad_f sum_both [1, 0] (1, 2) [Tensor [2] [3, 5], Tensor [2] [4, 1]]
     = Inr (Tuple [Tensor [2] [2, 2], Tensor [2] [2, 2]])"
proof -
  let ?a = "Tensor [2] [3, 5 :: real]"
  let ?b = "Tensor [2] [4, 1 :: real]"
  have sh0: "shifted_args 1 [?a, ?b] 0
      = Inr ([Tensor [2, 2] [4, 5, 3, 6], ?b], [Tensor [2, 2] [2, 5, 3, 4], ?b])"
    by (simp add: shifted_args_def shape_tuple_def sizen_def eye_t_def cast_def reshape_def
        scale_t_def tile_rows_def add_t_def sub_t_def bind_e_def Let_def upt_rec
        numeral_2_eq_2)
  have sh1: "shifted_args 1 [?a, ?b] (Suc 0)
      = Inr ([?a, Tensor [2, 2] [5, 1, 4, 2]], [?a, Tensor [2, 2] [3, 1, 4, 0]])"
    by (simp add: shifted_args_def shape_tuple_def sizen_def eye_t_def cast_def reshape_def
        scale_t_def tile_rows_def add_t_def sub_t_def bind_e_def Let_def upt_rec
        numeral_2_eq_2)
  have vm0: "vmap sum_both [0] [?a, Tensor [2, 2] [p, q, r, s]]
      = Inr (Tensor [2] [3 + (p + q + r + s), 5 + (p + q + r + s)])" for p q r s
    by (simp add: vmap_def stack_def row_def sum_both_def upt_rec numeral_2_eq_2)
  have vm1: "vmap sum_both [Suc 0] [Tensor [2, 2] [p, q, r, s], ?b]
      = Inr (Tensor [2] [p + q + r + s + 4, p + q + r + s + 1])" for p q r s
    by (simp add: vmap_def stack_def row_def sum_both_def upt_rec numeral_2_eq_2)
  show ?thesis
    by (simp add: grad_f_def sh0 sh1 shift_difference_def vm0 vm1 sub_t_def div_t_def reshape_def
        shape_tuple_def pack_gradients_def bind_e_def Let_def)
qed

subsection \<open>The gradient computed by \<open>dynamics_rhs\<close>\<close>

lemma tensordot1_zeros: "tensordot1 a (map (\<lambda>t. 0) b) = 0"
  by (simp add: tensordot1_sum)

lemma vecmat_matvec_assoc:
  assumes "\<forall>r\<in>set h. length r = length h"
  shows "tensordot1 (vecmat x h) y = tensordot1 x (matvec h y)"
proof -
  let ?A = "{..<min (length x) (length h)}"
  let ?B = "{..<min (length h) (length y)}"
  have col: "vecmat x h ! b = (\<Sum>a\<in>?A. x ! a * h ! a ! b)" if "b \<in> ?B" for b
    using that by (simp add: vecmat_def tensordot1_sum)
  have rw: "matvec h y ! a = (\<Sum>b\<in>?B. h ! a ! b * y ! b)" if "a \<in> ?A" for a
    using that assms by (simp add: matvec_def tensordot1_sum)
  have "tensordot1 (vecmat x h) y = (\<Sum>b\<in>?B. vecmat x h ! b * y ! b)"
    by (simp add: tensordot1_sum vecmat_def)
  also have "\<dots> = (\<Sum>b\<in>?B. \<Sum>a\<in>?A. x ! a * h ! a ! b * y ! b)"
    by (rule sum.cong) (simp_all add: col sum_distrib_right)
  also have "\<dots> = (\<Sum>a\<in>?A. \<Sum>b\<in>?B. x ! a * h ! a ! b * y ! b)"
    by (rule sum.swap)
  also have "\<dots> = (\<Sum>a\<in>?A. x ! a * matvec h y ! a)"
    by (rule sum.cong) (simp_all add: rw sum_distrib_left mult.assoc)
  also have "\<dots> = tensordot1 x (matvec h y)"
    by (simp add: tensordot1_sum matvec_def)
  finally show ?thesis .
qed

text \<open>
  C8. For a square Hamiltonian, dense or sparse, entry \<open>k\<close> of the result of the wrapper
  of \<open>dynamics_rhs(f, h)\<close> is the real part of \<open>\<langle>d_k psi | h | psi\<rangle>\<close>: the derivative, along
  parameter \<open>k\<close>, of the real part of \<open>conj(psi) h psi\<close> in which only the bra is
  differentiated and the ket is held constant. Here \<open>psi\<close> and \<open>d_k psi\<close> are the state and
  its tangent along parameter \<open>k\<close>.
\<close>

theorem dynamics_rhs_gradient:
  assumes "k < length params" "\<forall>r\<in>set (entries h). length r = length (entries h)"
  shows "\<exists>w g. dynamics_rhs f h = Callable w \<and> w params = Inr g \<and> length g = length params
     \<and> g ! k = (let (psi, d_psi) = f (params, one_hot (length params) k)
                in Re (vdot d_psi (matvec (entries h) psi)))"
proof -
  obtain psi d_psi where f: "f (params, one_hot (length params) k) = (psi, d_psi)"
    by (cases "f (params, one_hot (length params) k)")
  have dense: "snd (dot_d (vecmat_d (conj_d (psi, d_psi)) (entries h)) (stop_gradient_d (psi, d_psi)))
      = vdot d_psi (matvec (entries h) psi)"
    by (simp add: dot_d_def vecmat_d_def conj_d_def stop_gradient_d_def tensordot1_zeros
        vecmat_matvec_assoc [OF assms(2)] vdot_def)
  have zeros: "matvec (entries h) (map (\<lambda>t. 0) d_psi) = map (\<lambda>r. 0) (entries h)"
    by (simp add: matvec_def tensordot1_zeros)
  have sparse: "snd (dot_d (conj_d (psi, d_psi)) (matvec_d (entries h) (stop_gradient_d (psi, d_psi))))
      = vdot d_psi (matvec (entries h) psi)"
    by (simp add: dot_d_def matvec_d_def conj_d_def stop_gradient_d_def zeros tensordot1_zeros
        vdot_def)
  have "snd (energy f h (params, one_hot (length params) k))
      = Re (vdot d_psi (matvec (entries h) psi))"
    using dense sparse by (simp add: energy_def f Let_def real_d_def)
  then show ?thesis
    using assms(1) by (simp add: dynamics_rhs_def dynamics_rhs_wrapper_def grad_def f)
qed

theorem dynamics_rhs_gradient_witness:
  "\<exists>w g. dynamics_rhs line_state (Sparse [[1, 2], [2, 1]]) = Callable w \<and> w [3] = Inr g
     \<and> length g = 1 \<and> g ! 0 = 3"
  using dynamics_rhs_gradient [of 0 "[3]" "Sparse [[1, 2], [2, 1]]" line_state]
  by (simp add: line_state_def one_hot_def vdot_def conj_def matvec_def tensordot1_def)

subsection \<open>What the functions of the module return\<close>






subsection \<open>Parameter shift on the first argument\<close>

lemma take_drop_block:
  assumes "\<forall>i<m. length (F i) = n" "k < m"
  shows "take n (drop (k * n) (concat (map F [0..<m]))) = F k"
  using assms
proof (induction m arbitrary: k)
  case 0
  then show ?case by simp
next
  case (Suc m)
  have len: "length (concat (map F [0..<m])) = m * n"
    using length_concat_const [of m F n 0] Suc.prems(1) by simp
  show ?case
  proof (cases "k < m")
    case True
    then have "Suc k * n \<le> m * n" by (intro mult_le_mono1) simp
    then have "k * n + n \<le> m * n" by simp
    with True Suc show ?thesis
      by (simp add: len)
  next
    case False
    with Suc.prems(2) have "k = m" by simp
    with Suc.prems(1) show ?thesis by (simp add: len)
  qed
qed

lemma length_concat_blocks:
  assumes "\<forall>i<m. length (A i) = length (B i)"
  shows "length (concat (map A [0..<m])) = length (concat (map B [0..<m]))"
  using assms by (induction m) simp_all

lemma map2_blocks:
  assumes "\<forall>i<m. length (A i) = length (B i)"
  shows "map2 g (concat (map A [0..<m])) (concat (map B [0..<m]))
           = concat (map (\<lambda>i. map2 g (A i) (B i)) [0..<m])"
  using assms
proof (induction m)
  case 0
  show ?case by simp
next
  case (Suc m)
  then have "length (concat (map A [0..<m])) = length (concat (map B [0..<m]))"
    by (intro length_concat_blocks) simp
  with Suc show ?case by simp
qed

lemma enumerate_rest:
  "map (\<lambda>(j, a). if j = 0 then g a else a) (enumerate (Suc n) rest) = rest"
  by (induction rest arbitrary: n) simp_all

lemma shifted_rows:
  fixes g :: "real \<Rightarrow> real \<Rightarrow> real"
  assumes "length d = n" "k < n"
  shows "take n (drop (k * n)
           (map2 g (concat (replicate n d))
              (map ((*) s) (concat (map (\<lambda>i. map (\<lambda>j. if i = j then 1 else 0) [0..<n]) [0..<n])))))
         = map (\<lambda>j. g (d ! j) (if j = k then s else 0)) [0..<n]"
proof -
  let ?B = "\<lambda>i. map ((*) s) (map (\<lambda>j. if i = j then 1 else (0::real)) [0..<n])"
  have rep: "concat (replicate n d) = concat (map (\<lambda>i. d) [0..<n])"
    by (simp add: map_replicate_const)
  have sc: "map ((*) s) (concat (map (\<lambda>i. map (\<lambda>j. if i = j then 1 else 0) [0..<n]) [0..<n]))
      = concat (map ?B [0..<n])"
    by (simp add: map_concat comp_def)
  have blocks: "map2 g (concat (map (\<lambda>i. d) [0..<n])) (concat (map ?B [0..<n]))
      = concat (map (\<lambda>i. map2 g d (?B i)) [0..<n])"
    by (rule map2_blocks) (simp add: assms(1))
  have "take n (drop (k * n) (concat (map (\<lambda>i. map2 g d (?B i)) [0..<n]))) = map2 g d (?B k)"
    by (rule take_drop_block) (simp_all add: assms)
  also have "\<dots> = map (\<lambda>j. g (d ! j) (if j = k then s else 0)) [0..<n]"
    using assms(1) by (intro nth_equalityI) auto
  finally show ?thesis
    by (simp only: rep sc blocks)
qed

lemma vmap_first_argument:
  assumes "1 \<le> m" "\<forall>k<m. shape (f (row (Tensor (m # sh) dd) k # rest)) = os"
  shows "vmap f [0] (Tensor (m # sh) dd # rest)
           = Inr (Tensor (m # os)
                    (concat (map (\<lambda>k. data (f (row (Tensor (m # sh) dd) k # rest))) [0..<m])))"
proof -
  have en: "map (\<lambda>(j, a). if j = 0 then row a k else a) (enumerate (Suc 0) rest) = rest"
    for k :: nat
    by (rule enumerate_rest)
  let ?ts = "map (\<lambda>k. f (row (Tensor (m # sh) dd) k # rest)) [0..<m]"
  have ne: "?ts \<noteq> []" using assms(1) by simp
  have sh: "\<forall>t\<in>set ?ts. shape t = os" using assms(2) by auto
  have "vmap f [0] (Tensor (m # sh) dd # rest) = stack ?ts"
    using en by (simp add: vmap_def enumerate_simps)
  also have "\<dots> = Inr (Tensor (length ?ts # os) (concat (map data ?ts)))"
    using stack_same_shape [OF ne sh] .
  finally show ?thesis by (simp add: comp_def)
qed

text \<open>
  For \<open>argnums = 0\<close> (the default) and a well-formed first argument \<open>x\<close> with at least one
  entry, when \<open>f\<close> returns a scalar on every shifted argument: component \<open>k\<close> of the
  gradient is \<open>(f(x + s0 e_k) - f(x - s0 e_k)) / s1\<close>, in the shape of \<open>x\<close>.
\<close>

lemma grad_f_first_argument:
  assumes wf: "wf_tensor x" and pos: "1 \<le> sizen x"
    and sc: "\<forall>k<sizen x. \<forall>s. shape (f (shifted x k s # rest)) = []
                \<and> length (data (f (shifted x k s # rest))) = 1"
  shows "grad_f f [0] (s0, s1) (x # rest)
           = Inr (Single (Tensor (shape x)
               (map (\<lambda>k. (scalar_value (f (shifted x k s0 # rest))
                          - scalar_value (f (shifted x k (- s0) # rest))) / s1)
                  [0..<sizen x])))"
proof -
  obtain shp d where x: "x = Tensor shp d" by (cases x)
  let ?n = "prod_list shp"
  have len: "length d = ?n" using wf by (simp add: wf_tensor_def x)
  have n: "sizen x = ?n" by (simp add: sizen_def x)
  let ?eye = "concat (map (\<lambda>i. map (\<lambda>j. if i = j then 1 else (0::real)) [0..<?n]) [0..<?n])"
  let ?plus = "Tensor (?n # shp) (map2 (+) (concat (replicate ?n d)) (map ((*) s0) ?eye))"
  let ?minus = "Tensor (?n # shp) (map2 (-) (concat (replicate ?n d)) (map ((*) s0) ?eye))"
  have leye: "length ?eye = ?n * ?n"
    using length_concat_const [of ?n "\<lambda>i. map (\<lambda>j. if i = j then 1 else (0::real)) [0..<?n]" ?n 0]
    by simp
  have r1: "reshape (Tensor [?n, ?n] ?eye) (int ?n # map int shp) = Inr (Tensor (?n # shp) ?eye)"
    using reshape_to_shape [of "?n # shp" "Tensor [?n, ?n] ?eye"] leye by simp
  have r2: "reshape (Tensor shp d) (1 # map int shp) = Inr (Tensor (1 # shp) d)"
    using reshape_to_shape [of "1 # shp" "Tensor shp d"] len by simp
  have sa: "shifted_args s0 (x # rest) 0 = Inr (?plus # rest, ?minus # rest)"
    unfolding shifted_args_def x
    by (simp add: shape_tuple_def sizen_def eye_t_def cast_def r1 r2 scale_t_def tile_rows_def
        add_t_def sub_t_def bind_e_def Let_def del: map_eq_conv)
  have rowp: "row ?plus k = shifted x k s0" if "k < ?n" for k
    using shifted_rows [OF len that, of "(+)" s0]
    by (simp add: row_def shifted_def x sizen_def)
  have rowm: "row ?minus k = shifted x k (- s0)" if "k < ?n" for k
    using shifted_rows [OF len that, of "(-)" s0]
    by (simp add: row_def shifted_def x sizen_def)
  have one: "1 \<le> ?n" using pos n by simp
  have val: "data (f (shifted x k s # rest)) = [scalar_value (f (shifted x k s # rest))]"
    if "k < ?n" for k s
  proof -
    from sc that n have "length (data (f (shifted x k s # rest))) = 1" by simp
    then show ?thesis
      by (cases "data (f (shifted x k s # rest))") (simp_all add: scalar_value_def)
  qed
  have vp: "vmap f [0] (?plus # rest)
      = Inr (Tensor [?n] (map (\<lambda>k. scalar_value (f (shifted x k s0 # rest))) [0..<?n]))"
  proof -
    have "vmap f [0] (?plus # rest)
        = Inr (Tensor (?n # []) (concat (map (\<lambda>k. data (f (row ?plus k # rest))) [0..<?n])))"
      by (rule vmap_first_argument [OF one]) (use rowp sc n in simp)
    also have "map (\<lambda>k. data (f (row ?plus k # rest))) [0..<?n]
        = map (\<lambda>k. [scalar_value (f (shifted x k s0 # rest))]) [0..<?n]"
      using rowp val by simp
    finally show ?thesis by (simp add: concat_map_singleton)
  qed
  have vm: "vmap f [0] (?minus # rest)
      = Inr (Tensor [?n] (map (\<lambda>k. scalar_value (f (shifted x k (- s0) # rest))) [0..<?n]))"
  proof -
    have "vmap f [0] (?minus # rest)
        = Inr (Tensor (?n # []) (concat (map (\<lambda>k. data (f (row ?minus k # rest))) [0..<?n])))"
      by (rule vmap_first_argument [OF one]) (use rowm sc n in simp)
    also have "map (\<lambda>k. data (f (row ?minus k # rest))) [0..<?n]
        = map (\<lambda>k. [scalar_value (f (shifted x k (- s0) # rest))]) [0..<?n]"
      using rowm val by simp
    finally show ?thesis by (simp add: concat_map_singleton)
  qed
  let ?q = "map (\<lambda>k. (scalar_value (f (shifted x k s0 # rest))
                - scalar_value (f (shifted x k (- s0) # rest))) / s1) [0..<?n]"
  have diff: "map ((\<lambda>v. v / s1) \<circ> (\<lambda>(a, b). a - b))
        (zip (map (\<lambda>k. scalar_value (f (shifted x k s0 # rest))) [0..<?n])
             (map (\<lambda>k. scalar_value (f (shifted x k (- s0) # rest))) [0..<?n])) = ?q"
    by (intro nth_equalityI) simp_all
  have r3: "reshape (Tensor [?n] ?q) (map int shp) = Inr (Tensor shp ?q)"
    using reshape_to_shape [of shp "Tensor [?n] ?q"] by simp
  have sd: "shift_difference [vmap f [0]] s1 shp 0 (?plus # rest) (?minus # rest)
      = Inr (Tensor shp ?q)"
    by (simp add: shift_difference_def vp vm sub_t_def div_t_def bind_e_def diff r3
        del: map_eq_conv)
  have shx: "shape x = shp" by (simp add: x)
  show ?thesis
    unfolding grad_f_def
    by (simp add: sa sd bind_e_def pack_gradients_def Let_def n shape_tuple_def shx
        del: map_eq_conv)
qed

subsection \<open>Shape and arity of the gradients of the parameter shift\<close>

lemma sequence_e_result:
  assumes "sequence_e ms = Inr xs"
  shows "length xs = length ms \<and> (\<forall>p<length ms. ms ! p = Inr (xs ! p))"
  using assms
proof (induction ms arbitrary: xs)
  case Nil
  then show ?case by simp
next
  case (Cons m ms)
  from Cons.prems obtain y ys where m: "m = Inr y" and ms: "sequence_e ms = Inr ys"
    and xs: "xs = y # ys"
    by (auto simp: bind_e_def split: sum.splits)
  from Cons.IH [OF ms] show ?case
    by (auto simp: m xs nth_Cons split: nat.splits)
qed

lemma reshape_result_shape:
  assumes "reshape t (map int shp) = Inr r"
  shows "shape r = shp"
proof -
  have f2: "filter (\<lambda>d. d = - 1) (map int shp) = []"
    by (induction shp) simp_all
  have f4: "map (nat \<circ> int) shp = shp"
    by (induction shp) simp_all
  from assms show ?thesis
    unfolding reshape_def Let_def f2
    by (auto simp: f4 split: if_splits)
qed

lemma shift_difference_shape:
  assumes "shift_difference vfs s shp i nargs nargs2 = Inr r"
  shows "shape r = shp"
  using assms
  by (auto simp: shift_difference_def bind_e_def reshape_result_shape split: if_splits sum.splits)

lemma gradients_shape_arity:
  assumes r: "bind_e (sequence_e (map F argnums)) (pack_gradients argnums) = Inr r"
    and F: "\<And>i t. F i = Inr t \<Longrightarrow> shape t = shape (args ! i)"
  shows "case r of
           Single t \<Rightarrow> length argnums = 1 \<and> shape t = shape (args ! (argnums ! 0))
         | Tuple ts \<Rightarrow> 1 < length argnums \<and> map shape ts = map (\<lambda>i. shape (args ! i)) argnums"
proof -
  from r obtain gs where gs: "sequence_e (map F argnums) = Inr gs"
    and pk: "pack_gradients argnums gs = Inr r"
    by (auto simp: bind_e_def split: sum.splits)
  from sequence_e_result [OF gs] have len: "length gs = length argnums"
    and nth: "\<forall>p<length argnums. F (argnums ! p) = Inr (gs ! p)"
    by simp_all
  have sh: "shape (gs ! p) = shape (args ! (argnums ! p))" if "p < length argnums" for p
    using nth that F by blast
  have all: "map shape gs = map (\<lambda>i. shape (args ! i)) argnums"
    by (rule nth_equalityI) (simp_all add: len sh)
  show ?thesis
  proof (cases "1 < length argnums")
    case True
    with pk all show ?thesis by (auto simp: pack_gradients_def)
  next
    case False
    with pk obtain g gs' where g: "gs = g # gs'" "r = Single g"
      by (auto simp: pack_gradients_def split: list.splits)
    with len False have l1: "length argnums = 1" by (cases argnums) auto
    with sh [of 0] g show ?thesis by simp
  qed
qed

text \<open>
  C10. Every result that the function returned by \<open>parameter_shift_grad\<close> or by
  \<open>parameter_shift_grad_v2\<close> returns has the arity and the shapes of its arguments: it is
  the single gradient exactly when \<open>argnums\<close> lists one position and the tuple of the
  gradients exactly when it lists more, and the gradient at each position of \<open>argnums\<close>
  has the shape of the argument at that position (the quotient is reshaped to it, lines
  257 and 338).
\<close>

theorem grad_f_shape_arity:
  assumes "parameter_shift_grad f argnums jit shifts = Callable g
           \<or> parameter_shift_grad_v2 random_split f argnums jit random_argnums shifts = Callable g"
    and "g args = Inr r"
  shows "case r of
           Single t \<Rightarrow> length argnums = 1 \<and> shape t = shape (args ! (argnums ! 0))
         | Tuple ts \<Rightarrow> 1 < length argnums \<and> map shape ts = map (\<lambda>i. shape (args ! i)) argnums"
  using assms(1)
proof
  assume "parameter_shift_grad f argnums jit shifts = Callable g"
  then have g: "g = grad_f f argnums shifts"
    by (cases jit) (auto simp: parameter_shift_grad_def jit_compile_def)
  show ?thesis
  proof (rule gradients_shape_arity)
    show "bind_e (sequence_e (map (\<lambda>i.
             bind_e (shifted_args (fst shifts) args i) (\<lambda>(nargs, nargs2).
               shift_difference (map (\<lambda>i. vmap f [i]) argnums) (snd shifts)
                 (shape_tuple (args ! i)) i nargs nargs2)) argnums))
           (pack_gradients argnums) = Inr r"
      using assms(2) by (simp add: g grad_f_def Let_def)
  next
    fix i t
    assume "bind_e (shifted_args (fst shifts) args i) (\<lambda>(nargs, nargs2).
               shift_difference (map (\<lambda>i. vmap f [i]) argnums) (snd shifts)
                 (shape_tuple (args ! i)) i nargs nargs2) = Inr t"
    then show "shape t = shape (args ! i)"
      by (auto simp: bind_e_def shape_tuple_def dest: shift_difference_shape split: sum.splits)
  qed
next
  assume "parameter_shift_grad_v2 random_split f argnums jit random_argnums shifts = Callable g"
  then have g: "g = grad_f_v2 random_split f argnums random_argnums shifts"
    by (cases jit) (auto simp: parameter_shift_grad_v2_def jit_compile_def)
  let ?vfs = "case random_argnums of
                   None \<Rightarrow> map (\<lambda>i. vmap f [i]) argnums
                 | Some rs \<Rightarrow> map (\<lambda>i. vmap f ([i] @ rs)) argnums"
  show ?thesis
  proof (rule gradients_shape_arity)
    show "bind_e (sequence_e (map (\<lambda>i.
             bind_e (shifted_args (fst shifts) args i) (\<lambda>nn.
             bind_e (case random_argnums of
                       None \<Rightarrow> Inr nn
                     | Some rs \<Rightarrow> fresh_keys random_split (sizen (args ! i)) args rs nn)
               (\<lambda>(nargs, nargs2).
                  shift_difference ?vfs (snd shifts) (shape_tuple (args ! i)) i nargs nargs2)))
           argnums))
         (pack_gradients argnums) = Inr r"
      using assms(2) by (simp add: g grad_f_v2_def Let_def)
  next
    fix i t
    assume "bind_e (shifted_args (fst shifts) args i) (\<lambda>nn.
             bind_e (case random_argnums of
                       None \<Rightarrow> Inr nn
                     | Some rs \<Rightarrow> fresh_keys random_split (sizen (args ! i)) args rs nn)
               (\<lambda>(nargs, nargs2).
                  shift_difference ?vfs (snd shifts) (shape_tuple (args ! i)) i nargs nargs2)) = Inr t"
    then show "shape t = shape (args ! i)"
      by (auto simp: bind_e_def shape_tuple_def dest: shift_difference_shape split: sum.splits)
  qed
qed


theorem grad_f_shape_arity_witness:
  "(\<exists>g. parameter_shift_grad sum_both [0, 1] False (1, 2) = Callable g
        \<and> g [Tensor [2] [3, 5], Tensor [3] [4, 1, 1]]
            = Inr (Tuple [Tensor [2] [1, 1], Tensor [3] [1, 1, 1]]))
   \<and> (\<exists>g. parameter_shift_grad_v2 no_split sum_both [0] True None default_shifts = Callable g
        \<and> g [Tensor [] [3], Tensor [] [4]] = Inr (Single (Tensor [] [pi / 2])))
   \<and> 1 < length [0, 1 :: nat]
   \<and> map shape [Tensor [2] [1, 1 :: real], Tensor [3] [1, 1, 1]] = [[2], [3]]
   \<and> length [0 :: nat] = 1
   \<and> shape (Tensor [] [pi / 2]) = []"
proof -
  let ?a = "Tensor [2] [3, 5 :: real]"
  let ?b = "Tensor [3] [4, 1, 1 :: real]"
  have c1: "parameter_shift_grad sum_both [0, 1] False (1, 2) = Callable (grad_f sum_both [0, 1] (1, 2))"
    by (simp add: parameter_shift_grad_def)
  have sh0: "shifted_args 1 [?a, ?b] 0
      = Inr ([Tensor [2, 2] [4, 5, 3, 6], ?b], [Tensor [2, 2] [2, 5, 3, 4], ?b])"
    by (simp add: shifted_args_def shape_tuple_def sizen_def eye_t_def cast_def reshape_def
        scale_t_def tile_rows_def add_t_def sub_t_def bind_e_def Let_def upt_rec
        numeral_2_eq_2)
  have sh1: "shifted_args 1 [?a, ?b] (Suc 0)
      = Inr ([?a, Tensor [3, 3] [5, 1, 1, 4, 2, 1, 4, 1, 2]],
             [?a, Tensor [3, 3] [3, 1, 1, 4, 0, 1, 4, 1, 0]])"
    by (simp add: shifted_args_def shape_tuple_def sizen_def eye_t_def cast_def reshape_def
        scale_t_def tile_rows_def add_t_def sub_t_def bind_e_def Let_def upt_rec
        numeral_3_eq_3)
  have vm0: "vmap sum_both [0] [Tensor [2, 2] [p, q, r, s], ?b]
      = Inr (Tensor [2] [p + q + 6, r + s + 6])" for p q r s
    by (simp add: vmap_def stack_def row_def sum_both_def upt_rec numeral_2_eq_2)
  have vm1: "vmap sum_both [Suc 0] [?a, Tensor [3, 3] [p, q, r, s, t, u, v, w, x]]
      = Inr (Tensor [3] [8 + (p + q + r), 8 + (s + t + u), 8 + (v + w + x)])" for p q r s t u v w x
    by (simp add: vmap_def stack_def row_def sum_both_def upt_rec numeral_3_eq_3)
  have ev1: "grad_f sum_both [0, 1] (1, 2) [?a, ?b]
      = Inr (Tuple [Tensor [2] [1, 1], Tensor [3] [1, 1, 1]])"
    by (simp add: grad_f_def sh0 sh1 shift_difference_def vm0 vm1 sub_t_def div_t_def reshape_def
        shape_tuple_def pack_gradients_def bind_e_def Let_def)
  have c2: "parameter_shift_grad_v2 no_split sum_both [0] True None default_shifts
      = Callable (grad_f_v2 no_split sum_both [0] None default_shifts)"
    by (simp add: parameter_shift_grad_v2_def jit_compile_def)
  have sh2: "shifted_args s [Tensor [] [a], Tensor [] [b]] 0
      = Inr ([Tensor [1] [a + s], Tensor [] [b]], [Tensor [1] [a - s], Tensor [] [b]])" for s a b
    by (simp add: shifted_args_def shape_tuple_def sizen_def eye_t_def cast_def reshape_def
        scale_t_def tile_rows_def add_t_def sub_t_def bind_e_def Let_def)
  have vm2: "vmap sum_both [0] [Tensor [Suc 0] [p], Tensor [] [q]] = Inr (Tensor [Suc 0] [p + q])"
    for p q
    by (simp add: vmap_def stack_def row_def sum_both_def)
  have ev2: "grad_f_v2 no_split sum_both [0] None default_shifts [Tensor [] [3], Tensor [] [4]]
      = Inr (Single (Tensor [] [pi / 2]))"
    by (simp add: grad_f_v2_def sh2 shift_difference_def vm2 sub_t_def div_t_def reshape_def
        shape_tuple_def pack_gradients_def bind_e_def Let_def default_shifts_def)
  from grad_f_shape_arity [OF disjI1 [OF c1] ev1] grad_f_shape_arity [OF disjI2 [OF c2] ev2]
  have "1 < length [0, 1 :: nat]
     \<and> map shape [Tensor [2] [1, 1 :: real], Tensor [3] [1, 1, 1]] = [[2], [3]]
     \<and> length [0 :: nat] = 1
     \<and> shape (Tensor [] [pi / 2]) = []"
    by simp
  with c1 ev1 c2 ev2 show ?thesis by simp
qed

end
